theory Spec2Isabelle
  imports Main "HOL-Library.Word"
begin

section \<open>Cluster-convergence checks of the e2e infra utilities\<close>

text \<open>
  This theory embeds the functions of \<^verbatim>\<open>pkg/e2e/infra/utils.go\<close> that poll a
  cluster until its machines and nodes have converged. The cluster is reached through a
  client whose every call may fail, so a function of the source becomes a function of the
  responses the client gives, and returns, beside its result, the client calls it made,
  in order.
\<close>

subsection \<open>Errors\<close>

text \<open>
  A Go \<^verbatim>\<open>error\<close> is a value. \<^verbatim>\<open>ErrWaitTimeout\<close> is the poller's own
  error, \<^verbatim>\<open>ApiError\<close> stands for any error a client call returns, and
  \<^verbatim>\<open>Errorf fmt args err\<close> is \<^verbatim>\<open>fmt.Errorf(fmt, args..., err)\<close>: the format string
  as the source has it, its string arguments in order, and the error it ends with, if any.
\<close>

datatype error =
    ErrWaitTimeout
  | ApiError string
  | Errorf string "string list" "error option"

subsection \<open>Resources\<close>

record ObjectReference =
  ref_Namespace :: string
  ref_Name :: string

text \<open>A machine: its identity and \<^verbatim>\<open>Status.NodeRef\<close>, a pointer that may be nil.\<close>

record Machine =
  machine_Namespace :: string
  machine_Name :: string
  machine_NodeRef :: "ObjectReference option"

record NodeCondition =
  cond_Type :: string
  cond_Status :: string

text \<open>A node: its name, \<^verbatim>\<open>Annotations\<close> (a Go map), \<^verbatim>\<open>Status.Conditions\<close> and
  \<^verbatim>\<open>Spec.Unschedulable\<close>.\<close>

record Node =
  node_Name :: string
  node_Annotations :: "string \<rightharpoonup> string"
  node_Conditions :: "NodeCondition list"
  node_Unschedulable :: bool

subsection \<open>Node readiness\<close>

text \<open>
  Modelled from the spec: \<^verbatim>\<open>e2e.IsNodeReady\<close> belongs to the e2e framework package, which
  is not among the sources. The spec describes readiness as the node's condition set
  holding the canonical ready condition in true state.
\<close>

definition IsNodeReady :: "Node \<Rightarrow> bool" where
  "IsNodeReady node =
     list_ex (\<lambda>c. cond_Type c = ''Ready'' \<and> cond_Status c = ''True'') (node_Conditions node)"

text \<open>The two diagnostic lines \<^verbatim>\<open>nodesAreReady\<close> writes, each with the node's name and
  its conditions.\<close>

datatype glog_line =
    NodeIsNotReady string "NodeCondition list"
  | NodeIsReady string "NodeCondition list"

text \<open>\<^verbatim>\<open>nodesAreReady\<close>: the loop over the nodes returns false at the first node that is
  not ready, after logging it; a ready node is logged and the loop goes on.\<close>

fun nodesAreReady :: "Node list \<Rightarrow> bool \<times> glog_line list" where
  "nodesAreReady [] = (True, [])"
| "nodesAreReady (node # nodes) =
     (if \<not> IsNodeReady node
      then (False, [NodeIsNotReady (node_Name node) (node_Conditions node)])
      else (case nodesAreReady nodes of
              (r, lg) \<Rightarrow> (r, NodeIsReady (node_Name node) (node_Conditions node) # lg)))"

subsection \<open>Configuration\<close>

text \<open>
  The values the functions take from outside the sources: the namespace
  \<^verbatim>\<open>e2e.TestContext.MachineApiNamespace\<close>, the annotation key
  \<^verbatim>\<open>controllernode.MachineAnnotationKey\<close>, and the durations \<^verbatim>\<open>e2e.WaitShort\<close> and
  \<^verbatim>\<open>e2e.WaitLong\<close>, in seconds.
\<close>

record e2e_env =
  MachineApiNamespace :: string
  MachineAnnotationKey :: string
  WaitShort :: nat
  WaitLong :: nat

subsection \<open>The scale sub-resource and machine sets\<close>

record GroupResource =
  gr_Group :: string
  gr_Resource :: string

record ObjectMeta =
  meta_Name :: string
  meta_Namespace :: string
  meta_ResourceVersion :: string

record ScaleSpec =
  spec_Replicas :: "32 word"

record ScaleStatus =
  status_Replicas :: "32 word"
  status_Selector :: string

record Scale =
  scale_ObjectMeta :: ObjectMeta
  scale_Spec :: ScaleSpec
  scale_Status :: ScaleStatus

record MachineSet =
  ms_Name :: string
  ms_Replicas :: "32 word option"
  ms_ReadyReplicas :: "32 word"
  ms_AvailableReplicas :: "32 word"

subsection \<open>Client calls\<close>

text \<open>
  The calls a function makes on the cluster, in the order it makes them. The two
  \<^verbatim>\<open>client.List\<close> calls carry the namespace of their \<^verbatim>\<open>ListOptions\<close> (empty when the
  options are empty), \<^verbatim>\<open>DeleteMachine\<close> is \<^verbatim>\<open>client.Delete\<close> of a machine, and the two
  calls on the scale sub-resource carry their arguments.
\<close>

datatype api_call =
    ListMachines string
  | ListNodes string
  | GetMachineSets
  | GetNodes
  | GetMachine string
  | DeleteMachine Machine
  | WaitUntilAllNodesAreReady
  | ScalesGet string GroupResource string
  | ScalesUpdate string GroupResource Scale

text \<open>Only the delete and the scale update change the cluster; the others read it.\<close>

fun mutating :: "api_call \<Rightarrow> bool" where
  "mutating (DeleteMachine m) = True"
| "mutating (ScalesUpdate ns gr s) = True"
| "mutating c = False"

subsection \<open>The bounded poller\<close>

text \<open>
  Modelled from the spec: \<^verbatim>\<open>wait.PollImmediate\<close> belongs to k8s.io/apimachinery, which is
  not among the sources. The spec's bounded poller takes an interval, a timeout and a
  predicate that returns whether it is satisfied and a fatal error or none; it calls the
  predicate at once and then once per interval until the predicate is satisfied
  (success), returns an error (the error is returned at once), or the timeout has passed
  (the timeout error). Time is counted in attempts: attempt \<open>k\<close> happens \<open>k\<close> intervals after
  the start and sees the responses \<open>world k\<close>, and the timeout leaves room for
  \<open>timeout div interval\<close> attempts after the first.
\<close>

fun poll :: "('o \<Rightarrow> (bool \<times> error option) \<times> api_call list) \<Rightarrow> 'o list
               \<Rightarrow> error option \<times> api_call list" where
  "poll condition [] = (Some ErrWaitTimeout, [])"
| "poll condition (x # xs) =
     (case condition x of
        ((ok, err), calls) \<Rightarrow>
          (case err of
             Some e \<Rightarrow> (Some e, calls)
           | None \<Rightarrow>
               if ok then (None, calls)
               else (case poll condition xs of (r, calls') \<Rightarrow> (r, calls @ calls'))))"

definition PollImmediate ::
    "nat \<Rightarrow> nat \<Rightarrow> ('o \<Rightarrow> (bool \<times> error option) \<times> api_call list) \<Rightarrow> (nat \<Rightarrow> 'o)
       \<Rightarrow> error option \<times> api_call list" where
  "PollImmediate interval timeout condition world =
     poll condition (map world [0..<Suc (timeout div interval)])"

subsection \<open>One machine per node\<close>

text \<open>What the two \<^verbatim>\<open>client.List\<close> calls of one iteration answer.\<close>

record list_reads =
  machineList_read :: "error + Machine list"
  nodeList_read :: "error + Node list"

text \<open>Reading a Go map of strings at a key it does not hold gives the empty string.\<close>

definition mapIndex :: "(string \<rightharpoonup> string) \<Rightarrow> string \<Rightarrow> string" where
  "mapIndex m k = (case m k of None \<Rightarrow> '''' | Some v \<Rightarrow> v)"

text \<open>The loop over the nodes fills \<^verbatim>\<open>nodeNameToMachineAnnotation\<close>; it gives up
  (\<open>None\<close>) at a node without the annotation.\<close>

fun nodeNameToMachineAnnotation ::
    "string \<Rightarrow> Node list \<Rightarrow> (string \<rightharpoonup> string) \<Rightarrow> (string \<rightharpoonup> string) option" where
  "nodeNameToMachineAnnotation key [] m = Some m"
| "nodeNameToMachineAnnotation key (node # nodes) m =
     (case node_Annotations node key of
        None \<Rightarrow> None
      | Some v \<Rightarrow> nodeNameToMachineAnnotation key nodes (m(node_Name node \<mapsto> v)))"

text \<open>The loop over the machines: \<^verbatim>\<open>fmt.Sprintf("%s/%s", namespace, machine.Name)\<close> is the
  namespace, a slash and the machine's name.\<close>

fun machinesLinked :: "string \<Rightarrow> Machine list \<Rightarrow> (string \<rightharpoonup> string) \<Rightarrow> bool" where
  "machinesLinked namespace [] m = True"
| "machinesLinked namespace (machine # machines) m =
     (case machine_NodeRef machine of
        None \<Rightarrow> False
      | Some nodeRef \<Rightarrow>
          if mapIndex m (ref_Name nodeRef) \<noteq> namespace @ ''/'' @ machine_Name machine
          then False
          else machinesLinked namespace machines m)"

text \<open>The predicate \<^verbatim>\<open>isOneMachinePerNode\<close> polls (lines 38 to 73).\<close>

definition isOneMachinePerNode_condition ::
    "e2e_env \<Rightarrow> list_reads \<Rightarrow> (bool \<times> error option) \<times> api_call list" where
  "isOneMachinePerNode_condition env r =
     (case machineList_read r of
        Inl err \<Rightarrow> ((False, None), [ListMachines (MachineApiNamespace env)])
      | Inr machines \<Rightarrow>
          (case nodeList_read r of
             Inl err \<Rightarrow>
               ((False, None),
                [ListMachines (MachineApiNamespace env), ListNodes (MachineApiNamespace env)])
           | Inr nodes \<Rightarrow>
               ((if length machines \<noteq> length nodes then False
                 else (case nodeNameToMachineAnnotation (MachineAnnotationKey env) nodes Map.empty of
                         None \<Rightarrow> False
                       | Some m \<Rightarrow> machinesLinked (MachineApiNamespace env) machines m),
                 None),
                [ListMachines (MachineApiNamespace env), ListNodes (MachineApiNamespace env)])))"

definition isOneMachinePerNode :: "e2e_env \<Rightarrow> (nat \<Rightarrow> list_reads) \<Rightarrow> bool \<times> api_call list" where
  "isOneMachinePerNode env world =
     (case PollImmediate 5 (WaitShort env) (isOneMachinePerNode_condition env) world of
        (Some err, calls) \<Rightarrow> (False, calls)
      | (None, calls) \<Rightarrow> (True, calls))"

subsection \<open>Cluster size and snapshots\<close>

text \<open>\<^verbatim>\<open>getClusterSize\<close>: the number of nodes \<^verbatim>\<open>e2e.GetNodes\<close> answers with, or its
  error wrapped.\<close>

definition getClusterSize :: "error + Node list \<Rightarrow> (error + int) \<times> api_call list" where
  "getClusterSize nodes_read =
     (case nodes_read of
        Inl err \<Rightarrow> (Inl (Errorf ''error getting nodes: %v'' [] (Some err)), [GetNodes])
      | Inr nodes \<Rightarrow> (Inr (int (length nodes)), [GetNodes]))"

text \<open>The two snapshot functions read and write log lines only; what they return is
  whether the read failed.\<close>

definition machineSetsSnapShotLogs ::
    "error + MachineSet list \<Rightarrow> error option \<times> api_call list" where
  "machineSetsSnapShotLogs machineSets_read =
     (case machineSets_read of
        Inl err \<Rightarrow> (Some (Errorf ''error getting machines: %v'' [] (Some err)), [GetMachineSets])
      | Inr machineSets \<Rightarrow> (None, [GetMachineSets]))"

definition nodesSnapShotLogs :: "error + Node list \<Rightarrow> error option \<times> api_call list" where
  "nodesSnapShotLogs nodes_read =
     (case nodes_read of
        Inl err \<Rightarrow> (Some (Errorf ''error getting nodes: %v'' [] (Some err)), [GetNodes])
      | Inr nodes \<Rightarrow> (None, [GetNodes]))"

subsection \<open>The machine of a node\<close>

text \<open>
  Modelled from the spec: \<^verbatim>\<open>cache.SplitMetaNamespaceKey\<close> belongs to k8s.io/client-go,
  which is not among the sources. The spec says that an annotation value is malformed
  when it cannot be split into namespace and name. Here the value is split at its
  slashes: two parts are a namespace and a name, one part is a name with the empty
  namespace, and anything else is an error. \<^verbatim>\<open>getMachineFromNode\<close> below takes the
  splitting function as an argument, so what is proved of it holds for every such
  function; this one is the function it is given where a concrete one is needed.
\<close>

fun splitSlash :: "string \<Rightarrow> string list" where
  "splitSlash [] = [[]]"
| "splitSlash (c # cs) =
     (if c = CHR ''/'' then [] # splitSlash cs
      else (case splitSlash cs of
              [] \<Rightarrow> [[c]]
            | p # ps \<Rightarrow> (c # p) # ps))"

definition SplitMetaNamespaceKey :: "string \<Rightarrow> error + string \<times> string" where
  "SplitMetaNamespaceKey key =
     (case splitSlash key of
        [name] \<Rightarrow> Inr ('''', name)
      | [namespace, name] \<Rightarrow> Inr (namespace, name)
      | _ \<Rightarrow> Inl (Errorf ''unexpected key format: %q'' [key] None))"

text \<open>\<^verbatim>\<open>getMachineFromNode\<close>: \<open>split\<close> stands for \<^verbatim>\<open>cache.SplitMetaNamespaceKey\<close> and
  \<open>getMachine\<close> for what \<^verbatim>\<open>e2e.GetMachine\<close> answers for a machine name.\<close>

definition getMachineFromNode ::
    "e2e_env \<Rightarrow> (string \<Rightarrow> error + string \<times> string) \<Rightarrow> (string \<Rightarrow> error + Machine) \<Rightarrow> Node
       \<Rightarrow> (error + Machine) \<times> api_call list" where
  "getMachineFromNode env split getMachine node =
     (case node_Annotations node (MachineAnnotationKey env) of
        None \<Rightarrow>
          (Inl (Errorf ''node %q does not have a MachineAnnotationKey %q''
                  [node_Name node, MachineAnnotationKey env] None), [])
      | Some machineNamespaceKey \<Rightarrow>
          (case split machineNamespaceKey of
             Inl err \<Rightarrow>
               (Inl (Errorf ''machine annotation format is incorrect %v: %v''
                       [machineNamespaceKey] (Some err)), [])
           | Inr (namespace, machineName) \<Rightarrow>
               if namespace \<noteq> MachineApiNamespace env
               then (Inl (Errorf ''Machine %q is forbidden to live outside of default %v namespace''
                            [machineNamespaceKey, MachineApiNamespace env] None), [])
               else (case getMachine machineName of
                       Inl err \<Rightarrow>
                         (Inl (Errorf ''error querying api for machine object: %v'' [] (Some err)),
                          [GetMachine machineName])
                     | Inr machine \<Rightarrow> (Inr machine, [GetMachine machineName]))))"

subsection \<open>Deleting a machine\<close>

text \<open>The predicate \<^verbatim>\<open>deleteMachine\<close> polls: \<open>delete_result\<close> is what \<^verbatim>\<open>client.Delete\<close>
  returns at that attempt.\<close>

definition deleteMachine_condition ::
    "Machine \<Rightarrow> error option \<Rightarrow> (bool \<times> error option) \<times> api_call list" where
  "deleteMachine_condition machine delete_result =
     (case delete_result of
        Some err \<Rightarrow> ((False, Some err), [DeleteMachine machine])
      | None \<Rightarrow> ((True, None), [DeleteMachine machine]))"

definition deleteMachine :: "(nat \<Rightarrow> error option) \<Rightarrow> Machine \<Rightarrow> error option \<times> api_call list" where
  "deleteMachine world machine = PollImmediate 1 60 (deleteMachine_condition machine) world"

subsection \<open>Scaling a machine set\<close>

text \<open>The scale client: what \<^verbatim>\<open>Scales(namespace).Get\<close> and \<^verbatim>\<open>Scales(namespace).Update\<close>
  answer.\<close>

record scale_client =
  scales_Get :: "string \<Rightarrow> GroupResource \<Rightarrow> string \<Rightarrow> error + Scale"
  scales_Update :: "string \<Rightarrow> GroupResource \<Rightarrow> Scale \<Rightarrow> error + Scale"

text \<open>What the steps of \<^verbatim>\<open>getScaleClient\<close> answer: loading the configuration, building
  the REST mapper, building the client. The discovery client, built by a call that
  returns no error, is taken as built.\<close>

record scale_setup =
  LoadConfig :: "error option"
  NewDiscoveryRESTMapper :: "error option"
  NewForConfig :: "error + scale_client"

definition getScaleClient :: "scale_setup \<Rightarrow> error + scale_client" where
  "getScaleClient setup =
     (case LoadConfig setup of
        Some err \<Rightarrow> Inl (Errorf ''error getting config %v'' [] (Some err))
      | None \<Rightarrow>
          (case NewDiscoveryRESTMapper setup of
             Some err \<Rightarrow> Inl (Errorf ''error calling NewDiscoveryRESTMapper %v'' [] (Some err))
           | None \<Rightarrow>
               (case NewForConfig setup of
                  Inl err \<Rightarrow> Inl (Errorf ''error calling building scale client %v'' [] (Some err))
                | Inr scaleClient \<Rightarrow> Inr scaleClient)))"

definition machineAPIGroup :: string where
  "machineAPIGroup = ''machine.openshift.io''"

text \<open>\<^verbatim>\<open>scaleMachineSet\<close>: \<open>replicas\<close> is a Go \<^verbatim>\<open>int\<close>, 64 bits wide, and
  \<^verbatim>\<open>int32(replicas)\<close> keeps its low 32 bits. \<^verbatim>\<open>DeepCopy\<close> of a value is the value.\<close>

definition scaleMachineSet ::
    "e2e_env \<Rightarrow> scale_setup \<Rightarrow> string \<Rightarrow> 64 word \<Rightarrow> error option \<times> api_call list" where
  "scaleMachineSet env setup name replicas =
     (case getScaleClient setup of
        Inl err \<Rightarrow> (Some (Errorf ''error calling getScaleClient %v'' [] (Some err)), [])
      | Inr scaleClient \<Rightarrow>
          (let gr = \<lparr>gr_Group = machineAPIGroup, gr_Resource = ''MachineSet''\<rparr>;
               ns = MachineApiNamespace env
           in case scales_Get scaleClient ns gr name of
                Inl err \<Rightarrow>
                  (Some (Errorf ''error calling scaleClient.Scales get: %v'' [] (Some err)),
                   [ScalesGet ns gr name])
              | Inr scale \<Rightarrow>
                  (let scaleUpdate = scale\<lparr>scale_Spec := (scale_Spec scale)\<lparr>spec_Replicas := ucast replicas\<rparr>\<rparr>
                   in case scales_Update scaleClient ns gr scaleUpdate of
                        Inl err \<Rightarrow>
                          (Some (Errorf ''error calling scaleClient.Scales update: %v'' [] (Some err)),
                           [ScalesGet ns gr name, ScalesUpdate ns gr scaleUpdate])
                      | Inr updated \<Rightarrow>
                          (None, [ScalesGet ns gr name, ScalesUpdate ns gr scaleUpdate]))))"

subsection \<open>Waiting for a cluster size\<close>

text \<open>The loop of \<^verbatim>\<open>waitUntilAllNodesAreSchedulable\<close> over the nodes.\<close>

fun allSchedulable :: "Node list \<Rightarrow> bool" where
  "allSchedulable [] = True"
| "allSchedulable (node # nodes) =
     (if node_Unschedulable node = True then False else allSchedulable nodes)"

definition waitUntilAllNodesAreSchedulable_condition ::
    "error + Node list \<Rightarrow> (bool \<times> error option) \<times> api_call list" where
  "waitUntilAllNodesAreSchedulable_condition nodeList_result =
     (case nodeList_result of
        Inl err \<Rightarrow> ((False, None), [ListNodes ''''])
      | Inr nodes \<Rightarrow> ((allSchedulable nodes, None), [ListNodes '''']))"

definition waitUntilAllNodesAreSchedulable ::
    "(nat \<Rightarrow> error + Node list) \<Rightarrow> error option \<times> api_call list" where
  "waitUntilAllNodesAreSchedulable world =
     PollImmediate 1 60 waitUntilAllNodesAreSchedulable_condition world"

text \<open>What the three reads of one iteration of the size poll answer: the machine sets
  and the nodes for the two snapshots, and the nodes for \<^verbatim>\<open>getClusterSize\<close>.\<close>

record size_reads =
  machineSets_read :: "error + MachineSet list"
  snapshot_nodes_read :: "error + Node list"
  size_nodes_read :: "error + Node list"

text \<open>The predicate of the size poll (lines 283 to 298).\<close>

definition clusterSize_condition ::
    "int \<Rightarrow> size_reads \<Rightarrow> (bool \<times> error option) \<times> api_call list" where
  "clusterSize_condition targetSize r =
     (case machineSetsSnapShotLogs (machineSets_read r) of
        (Some err, c1) \<Rightarrow> ((False, Some err), c1)
      | (None, c1) \<Rightarrow>
          (case nodesSnapShotLogs (snapshot_nodes_read r) of
             (Some err, c2) \<Rightarrow> ((False, Some err), c1 @ c2)
           | (None, c2) \<Rightarrow>
               (case getClusterSize (size_nodes_read r) of
                  (Inl err, c3) \<Rightarrow> ((False, Some err), c1 @ c2 @ c3)
                | (Inr finalClusterSize, c3) \<Rightarrow>
                    ((finalClusterSize = targetSize, None), c1 @ c2 @ c3))))"

text \<open>
  What the cluster answers while \<^verbatim>\<open>waitForClusterSizeToBeHealthy\<close> runs: the reads of
  each attempt of the size poll, what \<^verbatim>\<open>e2e.WaitUntilAllNodesAreReady\<close> returns (the
  function belongs to the e2e framework package, not among the sources), and the reads of
  each attempt of the two later polls.
\<close>

record cluster_world =
  size_world :: "nat \<Rightarrow> size_reads"
  nodesReady_result :: "error option"
  schedulable_world :: "nat \<Rightarrow> error + Node list"
  machinePerNode_world :: "nat \<Rightarrow> list_reads"

definition waitForClusterSizeToBeHealthy ::
    "e2e_env \<Rightarrow> cluster_world \<Rightarrow> int \<Rightarrow> error option \<times> api_call list" where
  "waitForClusterSizeToBeHealthy env w targetSize =
     (case PollImmediate 5 (WaitLong env) (clusterSize_condition targetSize) (size_world w) of
        (Some err, c1) \<Rightarrow>
          (Some (Errorf ''Did not reach expected number of nodes: %v'' [] (Some err)), c1)
      | (None, c1) \<Rightarrow>
          (case nodesReady_result w of
             Some err \<Rightarrow> (Some err, c1 @ [WaitUntilAllNodesAreReady])
           | None \<Rightarrow>
               (case waitUntilAllNodesAreSchedulable (schedulable_world w) of
                  (Some err, c3) \<Rightarrow> (Some err, c1 @ [WaitUntilAllNodesAreReady] @ c3)
                | (None, c3) \<Rightarrow>
                    (case isOneMachinePerNode env (machinePerNode_world w) of
                       (False, c4) \<Rightarrow>
                         (Some (Errorf ''One machine per node condition violated'' [] None),
                          c1 @ [WaitUntilAllNodesAreReady] @ c3 @ c4)
                     | (True, c4) \<Rightarrow>
                         (None, c1 @ [WaitUntilAllNodesAreReady] @ c3 @ c4)))))"

subsection \<open>The node a name denotes\<close>

text \<open>
  The node that a name denotes in a node list. A cluster has one node of a name; should a
  list hold a name twice, the later entry stands, as it does in the map the check builds
  from the list.
\<close>

fun nodeNamed :: "Node list \<Rightarrow> string \<Rightarrow> Node option" where
  "nodeNamed [] name = None"
| "nodeNamed (node # nodes) name =
     (case nodeNamed nodes name of
        Some n \<Rightarrow> Some n
      | None \<Rightarrow> if node_Name node = name then Some node else None)"

subsection \<open>A converged cluster of two machines\<close>

text \<open>A small cluster on which the theorems below are exercised: two machines, each
  backed by one node that is annotated with the machine's key.\<close>

definition fixture_env :: e2e_env where
  "fixture_env =
     \<lparr>MachineApiNamespace = ''openshift-machine-api'', MachineAnnotationKey = ''machine'',
      WaitShort = 10, WaitLong = 20\<rparr>"

definition fixture_machine :: "string \<Rightarrow> string \<Rightarrow> Machine" where
  "fixture_machine name nodeName =
     \<lparr>machine_Namespace = ''openshift-machine-api'', machine_Name = name,
      machine_NodeRef = Some \<lparr>ref_Namespace = '''', ref_Name = nodeName\<rparr>\<rparr>"

definition fixture_node :: "string \<Rightarrow> string \<Rightarrow> Node" where
  "fixture_node name machineKey =
     \<lparr>node_Name = name, node_Annotations = [''machine'' \<mapsto> machineKey],
      node_Conditions = [\<lparr>cond_Type = ''Ready'', cond_Status = ''True''\<rparr>],
      node_Unschedulable = False\<rparr>"

definition fixture_machines :: "Machine list" where
  "fixture_machines = [fixture_machine ''m1'' ''n1'', fixture_machine ''m2'' ''n2'']"

definition fixture_nodes :: "Node list" where
  "fixture_nodes =
     [fixture_node ''n1'' ''openshift-machine-api/m1'',
      fixture_node ''n2'' ''openshift-machine-api/m2'']"

definition fixture_reads :: list_reads where
  "fixture_reads = \<lparr>machineList_read = Inr fixture_machines, nodeList_read = Inr fixture_nodes\<rparr>"

subsection \<open>Machines referencing nodes\<close>

text \<open>A machine references a node when its \<^verbatim>\<open>Status.NodeRef\<close> is set and carries the
  node's name.\<close>

definition references :: "Machine \<Rightarrow> Node \<Rightarrow> bool" where
  "references machine node =
     (case machine_NodeRef machine of
        None \<Rightarrow> False
      | Some nodeRef \<Rightarrow> ref_Name nodeRef = node_Name node)"

subsection \<open>Outcomes of one attempt of the size poll\<close>

text \<open>An attempt of the size poll has not reached the size when its three reads succeed
  and the node count differs from the target; a read has failed when one of the three
  returned an error.\<close>

definition sizeNotReached :: "int \<Rightarrow> size_reads \<Rightarrow> bool" where
  "sizeNotReached targetSize r =
     (case (machineSets_read r, snapshot_nodes_read r, size_nodes_read r) of
        (Inr machineSets, Inr logged, Inr nodes) \<Rightarrow> int (length nodes) \<noteq> targetSize
      | _ \<Rightarrow> False)"

definition sizeReached :: "int \<Rightarrow> size_reads \<Rightarrow> bool" where
  "sizeReached targetSize r =
     (case (machineSets_read r, snapshot_nodes_read r, size_nodes_read r) of
        (Inr machineSets, Inr logged, Inr nodes) \<Rightarrow> int (length nodes) = targetSize
      | _ \<Rightarrow> False)"

definition readFailed :: "size_reads \<Rightarrow> bool" where
  "readFailed r \<longleftrightarrow>
     isl (machineSets_read r) \<or> isl (snapshot_nodes_read r) \<or> isl (size_nodes_read r)"

text \<open>The size poll of \<^verbatim>\<open>waitForClusterSizeToBeHealthy\<close>, taken alone.\<close>

definition sizeStage :: "e2e_env \<Rightarrow> cluster_world \<Rightarrow> int \<Rightarrow> error option \<times> api_call list" where
  "sizeStage env w targetSize =
     PollImmediate 5 (WaitLong env) (clusterSize_condition targetSize) (size_world w)"

subsection \<open>A cluster that answers every read\<close>

text \<open>Two shapes of world: one that answers every attempt alike, and one whose first
  attempt sees one answer and whose later attempts see another.\<close>

definition always :: "'a \<Rightarrow> nat \<Rightarrow> 'a" where
  "always a k = a"

definition first_then :: "'a \<Rightarrow> 'a \<Rightarrow> nat \<Rightarrow> 'a" where
  "first_then a b k = (if k = 0 then a else b)"

definition fixture_size_reads :: size_reads where
  "fixture_size_reads =
     \<lparr>machineSets_read = Inr [], snapshot_nodes_read = Inr fixture_nodes,
      size_nodes_read = Inr fixture_nodes\<rparr>"

definition fixture_world :: cluster_world where
  "fixture_world =
     \<lparr>size_world = always fixture_size_reads, nodesReady_result = None,
      schedulable_world = always (Inr fixture_nodes),
      machinePerNode_world = always fixture_reads\<rparr>"

section \<open>Properties\<close>

subsection \<open>Readiness of a node sequence\<close>

lemma nodesAreReady_all: "fst (nodesAreReady nodes) = list_all IsNodeReady nodes"
  by (induction nodes) (auto split: prod.splits)

lemma nodesAreReady_first_failure:
  "list_all IsNodeReady xs \<Longrightarrow> \<not> IsNodeReady n \<Longrightarrow>
   nodesAreReady (xs @ n # ys) =
     (False, map (\<lambda>x. NodeIsReady (node_Name x) (node_Conditions x)) xs
             @ [NodeIsNotReady (node_Name n) (node_Conditions n)])"
  by (induction xs) auto

text \<open>
  C5. For every node sequence, \<^verbatim>\<open>nodesAreReady\<close> returns true if and only if every node
  of the sequence is ready. When some node is not ready, the result is false and is
  decided at the first such node, wherever it stands: the nodes before it are logged as
  ready, it is logged as not ready, and nothing after it is looked at. On the empty
  sequence the result is true.
\<close>

theorem nodesAreReady_iff_all_ready:
  "fst (nodesAreReady nodes) = (\<forall>n \<in> set nodes. IsNodeReady n)
   \<and> (\<forall>xs n ys. nodes = xs @ n # ys \<and> (\<forall>x \<in> set xs. IsNodeReady x) \<and> \<not> IsNodeReady n \<longrightarrow>
        nodesAreReady nodes =
          (False, map (\<lambda>x. NodeIsReady (node_Name x) (node_Conditions x)) xs
                  @ [NodeIsNotReady (node_Name n) (node_Conditions n)]))
   \<and> fst (nodesAreReady []) = True"
proof (intro conjI allI impI)
  show "fst (nodesAreReady nodes) = (\<forall>n \<in> set nodes. IsNodeReady n)"
    by (simp add: nodesAreReady_all list_all_iff)
next
  fix xs n ys
  assume h: "nodes = xs @ n # ys \<and> (\<forall>x \<in> set xs. IsNodeReady x) \<and> \<not> IsNodeReady n"
  then have "list_all IsNodeReady xs" by (simp add: list_all_iff)
  with h show "nodesAreReady nodes =
          (False, map (\<lambda>x. NodeIsReady (node_Name x) (node_Conditions x)) xs
                  @ [NodeIsNotReady (node_Name n) (node_Conditions n)])"
    using nodesAreReady_first_failure by blast
next
  show "fst (nodesAreReady []) = True" by simp
qed

theorem nodesAreReady_iff_all_ready_witness:
  "IsNodeReady \<lparr>node_Name = ''a'', node_Annotations = Map.empty,
      node_Conditions = [\<lparr>cond_Type = ''Ready'', cond_Status = ''True''\<rparr>],
      node_Unschedulable = False\<rparr>
   \<and> \<not> IsNodeReady \<lparr>node_Name = ''b'', node_Annotations = Map.empty,
      node_Conditions = [\<lparr>cond_Type = ''Ready'', cond_Status = ''False''\<rparr>],
      node_Unschedulable = False\<rparr>
   \<and> nodesAreReady
       [\<lparr>node_Name = ''a'', node_Annotations = Map.empty,
          node_Conditions = [\<lparr>cond_Type = ''Ready'', cond_Status = ''True''\<rparr>],
          node_Unschedulable = False\<rparr>,
        \<lparr>node_Name = ''b'', node_Annotations = Map.empty,
          node_Conditions = [\<lparr>cond_Type = ''Ready'', cond_Status = ''False''\<rparr>],
          node_Unschedulable = False\<rparr>,
        \<lparr>node_Name = ''c'', node_Annotations = Map.empty,
          node_Conditions = [], node_Unschedulable = False\<rparr>]
     = (False,
        [NodeIsReady ''a'' [\<lparr>cond_Type = ''Ready'', cond_Status = ''True''\<rparr>],
         NodeIsNotReady ''b'' [\<lparr>cond_Type = ''Ready'', cond_Status = ''False''\<rparr>]])"
  using nodesAreReady_iff_all_ready
    [of "[\<lparr>node_Name = ''a'', node_Annotations = Map.empty,
          node_Conditions = [\<lparr>cond_Type = ''Ready'', cond_Status = ''True''\<rparr>],
          node_Unschedulable = False\<rparr>,
        \<lparr>node_Name = ''b'', node_Annotations = Map.empty,
          node_Conditions = [\<lparr>cond_Type = ''Ready'', cond_Status = ''False''\<rparr>],
          node_Unschedulable = False\<rparr>,
        \<lparr>node_Name = ''c'', node_Annotations = Map.empty,
          node_Conditions = [], node_Unschedulable = False\<rparr>]"]
  by (simp add: IsNodeReady_def)

subsection \<open>One iteration of the machine-per-node check\<close>

lemma nodeNamed_SomeD: "nodeNamed nodes k = Some n \<Longrightarrow> n \<in> set nodes \<and> node_Name n = k"
  by (induction nodes) (auto split: option.splits if_splits)

lemma nodeNamed_None_iff: "nodeNamed nodes k = None \<longleftrightarrow> k \<notin> node_Name ` set nodes"
  by (induction nodes) (auto split: option.splits)

lemma nodeNameToMachineAnnotation_Some_iff:
  "(\<exists>m. nodeNameToMachineAnnotation key nodes m0 = Some m)
     \<longleftrightarrow> (\<forall>n \<in> set nodes. node_Annotations n key \<noteq> None)"
  by (induction nodes arbitrary: m0) (auto split: option.splits)

lemma nodeNameToMachineAnnotation_lookup:
  "nodeNameToMachineAnnotation key nodes m0 = Some m \<Longrightarrow>
   m k = (case nodeNamed nodes k of
            Some n \<Rightarrow> node_Annotations n key
          | None \<Rightarrow> m0 k)"
proof (induction nodes arbitrary: m0)
  case Nil
  then show ?case by simp
next
  case (Cons node nodes)
  from Cons.prems obtain v where v: "node_Annotations node key = Some v"
    and rest: "nodeNameToMachineAnnotation key nodes (m0(node_Name node \<mapsto> v)) = Some m"
    by (auto split: option.splits)
  from Cons.IH [OF rest] v show ?case
    by (auto split: option.splits)
qed

lemma machinesLinked_iff:
  "machinesLinked namespace machines m \<longleftrightarrow>
     (\<forall>mc \<in> set machines. \<exists>nodeRef. machine_NodeRef mc = Some nodeRef
        \<and> mapIndex m (ref_Name nodeRef) = namespace @ ''/'' @ machine_Name mc)"
  by (induction machines) (auto split: option.splits)

lemma mapIndex_key:
  "mapIndex m k = namespace @ ''/'' @ name \<longleftrightarrow> m k = Some (namespace @ ''/'' @ name)"
  by (auto simp: mapIndex_def split: option.splits)

lemma linked_via_nodeNamed:
  assumes "nodeNameToMachineAnnotation key nodes Map.empty = Some m"
  shows "machinesLinked namespace machines m \<longleftrightarrow>
     (\<forall>mc \<in> set machines. \<exists>nodeRef n. machine_NodeRef mc = Some nodeRef
        \<and> nodeNamed nodes (ref_Name nodeRef) = Some n
        \<and> node_Annotations n key = Some (namespace @ ''/'' @ machine_Name mc))"
proof -
  have look: "m k = Some v \<longleftrightarrow> (\<exists>n. nodeNamed nodes k = Some n \<and> node_Annotations n key = Some v)"
    for k v
    using nodeNameToMachineAnnotation_lookup [OF assms, of k]
    by (auto split: option.splits)
  show ?thesis
    unfolding machinesLinked_iff mapIndex_key look by blast
qed

lemma condition_after_reads:
  assumes "machineList_read r = Inr machines" and "nodeList_read r = Inr nodes"
  shows "fst (fst (isOneMachinePerNode_condition env r)) \<longleftrightarrow>
           length machines = length nodes
           \<and> (\<forall>n \<in> set nodes. node_Annotations n (MachineAnnotationKey env) \<noteq> None)
           \<and> (\<forall>mc \<in> set machines. \<exists>nodeRef n.
                 machine_NodeRef mc = Some nodeRef
                 \<and> nodeNamed nodes (ref_Name nodeRef) = Some n
                 \<and> node_Annotations n (MachineAnnotationKey env)
                     = Some (MachineApiNamespace env @ ''/'' @ machine_Name mc))"
proof (cases "nodeNameToMachineAnnotation (MachineAnnotationKey env) nodes Map.empty")
  case None
  then have "\<not> (\<forall>n \<in> set nodes. node_Annotations n (MachineAnnotationKey env) \<noteq> None)"
    using nodeNameToMachineAnnotation_Some_iff [of "MachineAnnotationKey env" nodes Map.empty]
    by simp
  with assms None show ?thesis
    by (simp add: isOneMachinePerNode_condition_def)
next
  case (Some m)
  then have ann: "\<forall>n \<in> set nodes. node_Annotations n (MachineAnnotationKey env) \<noteq> None"
    using nodeNameToMachineAnnotation_Some_iff [of "MachineAnnotationKey env" nodes Map.empty]
    by blast
  from assms Some ann linked_via_nodeNamed [OF Some, of "MachineApiNamespace env" machines]
  show ?thesis
    by (simp add: isOneMachinePerNode_condition_def)
qed

lemma condition_no_error: "snd (fst (isOneMachinePerNode_condition env r)) = None"
  by (simp add: isOneMachinePerNode_condition_def split: sum.splits)

lemma condition_unsatisfied_on_failed_read:
  "machineList_read r = Inl e \<or> nodeList_read r = Inl e
     \<Longrightarrow> \<not> fst (fst (isOneMachinePerNode_condition env r))"
  by (auto simp: isOneMachinePerNode_condition_def split: sum.splits)

text \<open>
  C1. One iteration of the predicate that \<^verbatim>\<open>isOneMachinePerNode\<close> polls never returns an
  error, and it reports satisfied if and only if the machine list and the node list were
  both read, the two lists are equally long, every node carries the machine annotation,
  and every machine has a \<^verbatim>\<open>Status.NodeRef\<close> that names a node whose annotation value is
  the configured namespace, a slash and the machine's name. A failed read, a count
  mismatch, one node without the annotation or one machine that fails leaves the
  iteration unsatisfied with no error, which makes the poller try again.
\<close>

theorem isOneMachinePerNode_condition_iff:
  "snd (fst (isOneMachinePerNode_condition env r)) = None
   \<and> (fst (fst (isOneMachinePerNode_condition env r)) \<longleftrightarrow>
        (\<exists>machines nodes.
           machineList_read r = Inr machines \<and> nodeList_read r = Inr nodes
           \<and> length machines = length nodes
           \<and> (\<forall>n \<in> set nodes. node_Annotations n (MachineAnnotationKey env) \<noteq> None)
           \<and> (\<forall>mc \<in> set machines. \<exists>nodeRef n.
                 machine_NodeRef mc = Some nodeRef
                 \<and> nodeNamed nodes (ref_Name nodeRef) = Some n
                 \<and> node_Annotations n (MachineAnnotationKey env)
                     = Some (MachineApiNamespace env @ ''/'' @ machine_Name mc))))"
proof (cases "machineList_read r")
  case (Inl e)
  then show ?thesis
    using condition_unsatisfied_on_failed_read [of r e env] condition_no_error [of env r]
    by simp
next
  case machines: (Inr machines)
  show ?thesis
  proof (cases "nodeList_read r")
    case (Inl e)
    then show ?thesis
      using condition_unsatisfied_on_failed_read [of r e env] condition_no_error [of env r]
      by simp
  next
    case nodes: (Inr nodes)
    from condition_after_reads [OF machines nodes, of env] machines nodes
      condition_no_error [of env r]
    show ?thesis by simp
  qed
qed

lemmas fixture_defs =
  fixture_env_def fixture_machine_def fixture_node_def fixture_machines_def
  fixture_nodes_def fixture_reads_def

theorem isOneMachinePerNode_condition_iff_witness:
  "isOneMachinePerNode_condition fixture_env fixture_reads
     = ((True, None),
        [ListMachines ''openshift-machine-api'', ListNodes ''openshift-machine-api''])
   \<and> length fixture_machines = length fixture_nodes
   \<and> nodeNamed fixture_nodes ''n2'' = Some (fixture_node ''n2'' ''openshift-machine-api/m2'')
   \<and> isOneMachinePerNode_condition fixture_env
        (fixture_reads\<lparr>nodeList_read :=
           Inr [fixture_node ''n1'' ''openshift-machine-api/m1'',
                fixture_node ''n2'' ''openshift-machine-api/m1'']\<rparr>)
     = ((False, None),
        [ListMachines ''openshift-machine-api'', ListNodes ''openshift-machine-api''])"
  using isOneMachinePerNode_condition_iff [of fixture_env fixture_reads]
  by (simp add: fixture_defs isOneMachinePerNode_condition_def mapIndex_def)

subsection \<open>A satisfied iteration is a one-to-one correspondence\<close>

lemma satisfied_correspondence:
  assumes sat: "fst (fst (isOneMachinePerNode_condition env r))"
    and machines: "machineList_read r = Inr machines"
    and nodes: "nodeList_read r = Inr nodes"
    and names: "distinct (map machine_Name machines)"
  shows "inj_on (\<lambda>mc. ref_Name (the (machine_NodeRef mc))) (set machines)"
    and "(\<lambda>mc. ref_Name (the (machine_NodeRef mc))) ` set machines = node_Name ` set nodes"
    and "distinct (map node_Name nodes)"
    and "\<forall>mc \<in> set machines. \<exists>nodeRef n.
           machine_NodeRef mc = Some nodeRef \<and> n \<in> set nodes \<and> node_Name n = ref_Name nodeRef
           \<and> node_Annotations n (MachineAnnotationKey env)
               = Some (MachineApiNamespace env @ ''/'' @ machine_Name mc)"
proof -
  let ?g = "\<lambda>mc. ref_Name (the (machine_NodeRef mc))"
  let ?key = "\<lambda>mc. MachineApiNamespace env @ ''/'' @ machine_Name mc"
  from sat condition_after_reads [OF machines nodes, of env]
  have len: "length machines = length nodes"
    and linked: "\<forall>mc \<in> set machines. \<exists>nodeRef n.
                 machine_NodeRef mc = Some nodeRef
                 \<and> nodeNamed nodes (ref_Name nodeRef) = Some n
                 \<and> node_Annotations n (MachineAnnotationKey env) = Some (?key mc)"
    by simp_all
  have via: "\<exists>n. nodeNamed nodes (?g mc) = Some n
                \<and> node_Annotations n (MachineAnnotationKey env) = Some (?key mc)"
    if "mc \<in> set machines" for mc
    using linked that by fastforce
  show link: "\<forall>mc \<in> set machines. \<exists>nodeRef n.
           machine_NodeRef mc = Some nodeRef \<and> n \<in> set nodes \<and> node_Name n = ref_Name nodeRef
           \<and> node_Annotations n (MachineAnnotationKey env) = Some (?key mc)"
    using linked nodeNamed_SomeD by blast
  have inj_name: "inj_on machine_Name (set machines)" and dm: "distinct machines"
    using names by (simp_all add: distinct_map)
  show inj: "inj_on ?g (set machines)"
  proof (rule inj_onI)
    fix a b
    assume a: "a \<in> set machines" and b: "b \<in> set machines" and eq: "?g a = ?g b"
    from via [OF a] via [OF b] eq have "?key a = ?key b" by auto
    then have "machine_Name a = machine_Name b" by simp
    with inj_name a b show "a = b" by (auto dest: inj_onD)
  qed
  have sub: "?g ` set machines \<subseteq> node_Name ` set nodes"
  proof
    fix k
    assume "k \<in> ?g ` set machines"
    then obtain mc where mc: "mc \<in> set machines" and k: "k = ?g mc" by blast
    from via [OF mc] obtain n where "nodeNamed nodes (?g mc) = Some n" by blast
    from nodeNamed_SomeD [OF this] k show "k \<in> node_Name ` set nodes"
      by (intro image_eqI [where x = n]) simp_all
  qed
  have "card (?g ` set machines) = length machines"
    using inj dm by (simp add: card_image distinct_card)
  moreover have "card (?g ` set machines) \<le> card (node_Name ` set nodes)"
    using sub by (simp add: card_mono)
  moreover have "card (node_Name ` set nodes) \<le> length nodes"
    using card_length [of "map node_Name nodes"] by simp
  ultimately have c1: "card (node_Name ` set nodes) = length nodes"
    and c2: "card (?g ` set machines) = card (node_Name ` set nodes)"
    using len by simp_all
  from sub c2 show "?g ` set machines = node_Name ` set nodes"
    by (simp add: card_subset_eq)
  from c1 show "distinct (map node_Name nodes)"
    using card_distinct [of "map node_Name nodes"] by simp
qed

text \<open>
  C2. When an iteration of the check reports satisfied on a machine list that holds each
  machine name once (a namespace holds one machine of a name), the machines and the nodes
  correspond one to one: two different machines never reference the same node, every node
  is referenced by exactly one machine, every machine references exactly one node, and a
  machine and the node it references are linked both ways, the node's annotation being
  the machine's key. The node names are then pairwise different as well.
\<close>

theorem satisfied_iteration_is_bijection:
  assumes "fst (fst (isOneMachinePerNode_condition env r))"
    and "machineList_read r = Inr machines"
    and "nodeList_read r = Inr nodes"
    and "distinct (map machine_Name machines)"
  shows "(\<forall>m1 \<in> set machines. \<forall>m2 \<in> set machines. \<forall>n.
            references m1 n \<and> references m2 n \<longrightarrow> m1 = m2)
       \<and> (\<forall>n \<in> set nodes. \<exists>!mc. mc \<in> set machines \<and> references mc n)
       \<and> (\<forall>mc \<in> set machines. \<exists>!n. n \<in> set nodes \<and> references mc n)
       \<and> (\<forall>mc \<in> set machines. \<forall>n \<in> set nodes. references mc n \<longrightarrow>
            node_Annotations n (MachineAnnotationKey env)
              = Some (MachineApiNamespace env @ ''/'' @ machine_Name mc))
       \<and> length machines = length nodes
       \<and> distinct (map node_Name nodes)"
proof -
  let ?g = "\<lambda>mc. ref_Name (the (machine_NodeRef mc))"
  note corr = satisfied_correspondence [OF assms]
  have ref_g: "references mc n \<longleftrightarrow> ?g mc = node_Name n" if "mc \<in> set machines" for mc n
    using corr(4) that by (fastforce simp: references_def)
  have inj_node: "inj_on node_Name (set nodes)"
    using corr(3) by (simp add: distinct_map)
  have one: "\<forall>m1 \<in> set machines. \<forall>m2 \<in> set machines. \<forall>n.
            references m1 n \<and> references m2 n \<longrightarrow> m1 = m2"
  proof (intro ballI allI impI)
    fix m1 m2 n
    assume m1: "m1 \<in> set machines" and m2: "m2 \<in> set machines"
      and r: "references m1 n \<and> references m2 n"
    then have "?g m1 = ?g m2" using ref_g by simp
    with m1 m2 show "m1 = m2" using inj_onD [OF corr(1), of m1 m2] by simp
  qed
  have two: "\<forall>n \<in> set nodes. \<exists>!mc. mc \<in> set machines \<and> references mc n"
  proof
    fix n
    assume n: "n \<in> set nodes"
    then have "node_Name n \<in> ?g ` set machines" using corr(2) by blast
    then obtain mc where "mc \<in> set machines" and "?g mc = node_Name n" by auto
    then have "mc \<in> set machines \<and> references mc n" using ref_g by simp
    then show "\<exists>!mc. mc \<in> set machines \<and> references mc n"
      using one by blast
  qed
  have three: "\<forall>mc \<in> set machines. \<exists>!n. n \<in> set nodes \<and> references mc n"
  proof
    fix mc
    assume mc: "mc \<in> set machines"
    with corr(4) obtain n where "n \<in> set nodes" and "node_Name n = ?g mc" by fastforce
    then have ex: "n \<in> set nodes \<and> references mc n" using ref_g [OF mc] by simp
    have "n' = n" if "n' \<in> set nodes \<and> references mc n'" for n'
      using that ex ref_g [OF mc] inj_node by (auto dest: inj_onD)
    with ex show "\<exists>!n. n \<in> set nodes \<and> references mc n" by blast
  qed
  have four: "\<forall>mc \<in> set machines. \<forall>n \<in> set nodes. references mc n \<longrightarrow>
            node_Annotations n (MachineAnnotationKey env)
              = Some (MachineApiNamespace env @ ''/'' @ machine_Name mc)"
  proof (intro ballI impI)
    fix mc n
    assume mc: "mc \<in> set machines" and n: "n \<in> set nodes" and r: "references mc n"
    from corr(4) mc obtain n0 where n0: "n0 \<in> set nodes" "node_Name n0 = ?g mc"
      and ann: "node_Annotations n0 (MachineAnnotationKey env)
                  = Some (MachineApiNamespace env @ ''/'' @ machine_Name mc)"
      by fastforce
    from r ref_g [OF mc] n0 n inj_node have "n = n0" by (auto dest: inj_onD)
    with ann show "node_Annotations n (MachineAnnotationKey env)
              = Some (MachineApiNamespace env @ ''/'' @ machine_Name mc)" by simp
  qed
  have len: "length machines = length nodes"
    using assms(1) condition_after_reads [OF assms(2,3), of env] by simp
  from one two three four len corr(3) show ?thesis by blast
qed

theorem satisfied_iteration_is_bijection_witness:
  "fst (fst (isOneMachinePerNode_condition fixture_env fixture_reads))
   \<and> machineList_read fixture_reads = Inr fixture_machines
   \<and> nodeList_read fixture_reads = Inr fixture_nodes
   \<and> distinct (map machine_Name fixture_machines)
   \<and> references (fixture_machine ''m1'' ''n1'') (fixture_node ''n1'' ''openshift-machine-api/m1'')
   \<and> \<not> references (fixture_machine ''m2'' ''n2'') (fixture_node ''n1'' ''openshift-machine-api/m1'')
   \<and> distinct (map node_Name fixture_nodes)"
proof -
  have h1: "fst (fst (isOneMachinePerNode_condition fixture_env fixture_reads))"
    by (simp add: fixture_defs isOneMachinePerNode_condition_def mapIndex_def)
  have h2: "machineList_read fixture_reads = Inr fixture_machines"
    and h3: "nodeList_read fixture_reads = Inr fixture_nodes"
    by (simp_all add: fixture_reads_def)
  have h4: "distinct (map machine_Name fixture_machines)"
    by (simp add: fixture_machines_def fixture_machine_def)
  have r1: "references (fixture_machine ''m1'' ''n1'') (fixture_node ''n1'' ''openshift-machine-api/m1'')"
    and r2: "\<not> references (fixture_machine ''m2'' ''n2'') (fixture_node ''n1'' ''openshift-machine-api/m1'')"
    by (simp_all add: references_def fixture_machine_def fixture_node_def)
  from satisfied_iteration_is_bijection [OF h1 h2 h3 h4]
  have "distinct (map node_Name fixture_nodes)" by blast
  with h1 h2 h3 h4 r1 r2 show ?thesis by blast
qed

subsection \<open>The poller\<close>

lemma attempts_Cons: "map world [0..<Suc n] = world 0 # map world [Suc 0..<Suc n]"
  by (simp add: upt_conv_Cons del: upt_Suc)

lemma PollImmediate_first:
  "PollImmediate interval timeout condition world =
     poll condition (world 0 # map world [Suc 0..<Suc (timeout div interval)])"
  unfolding PollImmediate_def by (simp only: attempts_Cons)

lemma attempts_set: "set (map world [0..<Suc n]) = world ` {k. k \<le> n}"
proof -
  have "{0..<Suc n} = {k. k \<le> n}" by auto
  then show ?thesis by (simp only: set_map set_upt)
qed

lemma poll_satisfied_first:
  "condition x = ((True, None), calls) \<Longrightarrow> poll condition (x # xs) = (None, calls)"
  by simp

lemma poll_error_first:
  "condition x = ((ok, Some e), calls) \<Longrightarrow> poll condition (x # xs) = (Some e, calls)"
  by simp

lemma poll_without_error:
  "\<forall>x \<in> set xs. snd (fst (condition x)) = None \<Longrightarrow>
   fst (poll condition xs) =
     (if \<exists>x \<in> set xs. fst (fst (condition x)) then None else Some ErrWaitTimeout)"
  by (induction xs) (auto split: prod.splits option.splits)

lemma poll_calls_subset:
  "\<forall>x \<in> set xs. set (snd (condition x)) \<subseteq> S \<Longrightarrow> set (snd (poll condition xs)) \<subseteq> S"
proof (induction xs)
  case Nil
  then show ?case by simp
next
  case (Cons x xs)
  then have "set (snd (condition x)) \<subseteq> S" and "set (snd (poll condition xs)) \<subseteq> S"
    by simp_all
  then show ?case
    by (auto split: prod.splits option.splits)
qed

subsection \<open>The polled machine-per-node check\<close>

lemma isOneMachinePerNode_poll_result:
  "fst (PollImmediate 5 (WaitShort env) (isOneMachinePerNode_condition env) world) =
     (if \<exists>k \<le> WaitShort env div 5. fst (fst (isOneMachinePerNode_condition env (world k)))
      then None else Some ErrWaitTimeout)"
proof -
  have "\<forall>x \<in> set (map world [0..<Suc (WaitShort env div 5)]).
          snd (fst (isOneMachinePerNode_condition env x)) = None"
    by (simp add: condition_no_error)
  from poll_without_error [OF this] show ?thesis
    unfolding PollImmediate_def attempts_set by (auto simp: image_iff)
qed

lemma isOneMachinePerNode_result:
  "fst (isOneMachinePerNode env world) \<longleftrightarrow>
     fst (PollImmediate 5 (WaitShort env) (isOneMachinePerNode_condition env) world) = None"
  by (simp add: isOneMachinePerNode_def split: prod.splits option.splits)

lemma isOneMachinePerNode_calls:
  "snd (isOneMachinePerNode env world) =
     snd (PollImmediate 5 (WaitShort env) (isOneMachinePerNode_condition env) world)"
  by (simp add: isOneMachinePerNode_def split: prod.splits option.splits)

lemma isOneMachinePerNode_only_lists:
  "set (snd (isOneMachinePerNode env world))
     \<subseteq> {ListMachines (MachineApiNamespace env), ListNodes (MachineApiNamespace env)}"
proof -
  have "\<forall>x \<in> set (map world [0..<Suc (WaitShort env div 5)]).
          set (snd (isOneMachinePerNode_condition env x))
            \<subseteq> {ListMachines (MachineApiNamespace env), ListNodes (MachineApiNamespace env)}"
    by (auto simp: isOneMachinePerNode_condition_def split: sum.splits)
  from poll_calls_subset [OF this] show ?thesis
    by (simp add: isOneMachinePerNode_calls PollImmediate_def)
qed

lemma isOneMachinePerNode_first_attempt:
  assumes "fst (fst (isOneMachinePerNode_condition env (world 0)))"
  shows "isOneMachinePerNode env world =
           (True, [ListMachines (MachineApiNamespace env), ListNodes (MachineApiNamespace env)])"
proof -
  from assms have "isOneMachinePerNode_condition env (world 0) =
      ((True, None), [ListMachines (MachineApiNamespace env), ListNodes (MachineApiNamespace env)])"
    by (auto simp: isOneMachinePerNode_condition_def split: sum.splits if_splits)
  then show ?thesis
    by (simp add: isOneMachinePerNode_def PollImmediate_def attempts_Cons del: upt_Suc)
qed

text \<open>
  C9. \<^verbatim>\<open>isOneMachinePerNode\<close> returns a boolean and no error. Its predicate never returns
  an error, so its poll ends with success or with the timeout error and with nothing
  else, and the function turns every error of the poll into false: a caller cannot tell a
  timeout from a cluster that has not converged. It returns true exactly when the check
  is satisfied at one of the attempts the timeout allows; in particular it returns false
  when every attempt fails to read the machine list.
\<close>

theorem isOneMachinePerNode_true_iff_some_attempt:
  "(fst (isOneMachinePerNode env world) \<longleftrightarrow>
      (\<exists>k \<le> WaitShort env div 5. fst (fst (isOneMachinePerNode_condition env (world k)))))
   \<and> (fst (isOneMachinePerNode env world) \<longleftrightarrow>
        fst (PollImmediate 5 (WaitShort env) (isOneMachinePerNode_condition env) world) = None)
   \<and> (\<not> fst (isOneMachinePerNode env world) \<longleftrightarrow>
        fst (PollImmediate 5 (WaitShort env) (isOneMachinePerNode_condition env) world)
          = Some ErrWaitTimeout)
   \<and> ((\<forall>k \<le> WaitShort env div 5. \<exists>e. machineList_read (world k) = Inl e)
        \<longrightarrow> \<not> fst (isOneMachinePerNode env world))"
proof (intro conjI impI)
  show a: "fst (isOneMachinePerNode env world) \<longleftrightarrow>
      (\<exists>k \<le> WaitShort env div 5. fst (fst (isOneMachinePerNode_condition env (world k))))"
    by (simp add: isOneMachinePerNode_result isOneMachinePerNode_poll_result)
  show "fst (isOneMachinePerNode env world) \<longleftrightarrow>
        fst (PollImmediate 5 (WaitShort env) (isOneMachinePerNode_condition env) world) = None"
    by (rule isOneMachinePerNode_result)
  show "\<not> fst (isOneMachinePerNode env world) \<longleftrightarrow>
        fst (PollImmediate 5 (WaitShort env) (isOneMachinePerNode_condition env) world)
          = Some ErrWaitTimeout"
    by (simp add: isOneMachinePerNode_result isOneMachinePerNode_poll_result)
  assume "\<forall>k \<le> WaitShort env div 5. \<exists>e. machineList_read (world k) = Inl e"
  then have "\<forall>k \<le> WaitShort env div 5. \<not> fst (fst (isOneMachinePerNode_condition env (world k)))"
    using condition_unsatisfied_on_failed_read by blast
  with a show "\<not> fst (isOneMachinePerNode env world)" by blast
qed

theorem isOneMachinePerNode_true_iff_some_attempt_witness:
  "fst (isOneMachinePerNode fixture_env
          (\<lambda>k. if k = 2 then fixture_reads
               else \<lparr>machineList_read = Inl (ApiError ''unavailable''), nodeList_read = Inr []\<rparr>))
   \<and> \<not> fst (isOneMachinePerNode fixture_env
          (\<lambda>k. \<lparr>machineList_read = Inl (ApiError ''unavailable''), nodeList_read = Inr []\<rparr>))"
proof -
  let ?bad = "\<lparr>machineList_read = Inl (ApiError ''unavailable''), nodeList_read = Inr []\<rparr>"
  let ?w = "\<lambda>k::nat. if k = 2 then fixture_reads else ?bad"
  have d: "WaitShort fixture_env div 5 = 2" by (simp add: fixture_env_def)
  have s: "fst (fst (isOneMachinePerNode_condition fixture_env (?w 2)))"
    by (simp add: fixture_defs isOneMachinePerNode_condition_def mapIndex_def)
  have "fst (isOneMachinePerNode fixture_env ?w) \<longleftrightarrow>
          (\<exists>k \<le> WaitShort fixture_env div 5. fst (fst (isOneMachinePerNode_condition fixture_env (?w k))))"
    using isOneMachinePerNode_true_iff_some_attempt [of fixture_env ?w] by blast
  moreover have "\<exists>k \<le> WaitShort fixture_env div 5.
                   fst (fst (isOneMachinePerNode_condition fixture_env (?w k)))"
    using d s by (intro exI [of _ 2]) simp
  ultimately have A: "fst (isOneMachinePerNode fixture_env ?w)" by blast
  have h: "\<forall>k \<le> WaitShort fixture_env div 5. \<exists>e. machineList_read ((\<lambda>k. ?bad) k) = Inl e"
    by simp
  have B: "\<not> fst (isOneMachinePerNode fixture_env (\<lambda>k. ?bad))"
    using isOneMachinePerNode_true_iff_some_attempt [of fixture_env "\<lambda>k. ?bad"] h by blast
  from A B show ?thesis by blast
qed

subsection \<open>Repeating the check on a converged cluster\<close>

lemma nodeNamed_distinct:
  "distinct (map node_Name nodes) \<Longrightarrow> n \<in> set nodes \<Longrightarrow> nodeNamed nodes (node_Name n) = Some n"
proof (induction nodes)
  case Nil
  then show ?case by simp
next
  case (Cons x xs)
  show ?case
  proof (cases "n \<in> set xs")
    case True
    with Cons show ?thesis by simp
  next
    case False
    with Cons.prems have "n = x" and "node_Name x \<notin> node_Name ` set xs" by auto
    then show ?thesis by (simp add: nodeNamed_None_iff [symmetric])
  qed
qed

lemma converged_satisfies:
  assumes len: "length machines = length nodes"
    and names: "distinct (map node_Name nodes)"
    and owner: "\<forall>n \<in> set nodes. \<exists>mc \<in> set machines. references mc n
                  \<and> node_Annotations n (MachineAnnotationKey env)
                      = Some (MachineApiNamespace env @ ''/'' @ machine_Name mc)"
    and backed: "\<forall>mc \<in> set machines. \<exists>n \<in> set nodes. references mc n
                  \<and> node_Annotations n (MachineAnnotationKey env)
                      = Some (MachineApiNamespace env @ ''/'' @ machine_Name mc)"
    and r: "machineList_read r = Inr machines" "nodeList_read r = Inr nodes"
  shows "fst (fst (isOneMachinePerNode_condition env r))"
proof -
  have ann: "\<forall>n \<in> set nodes. node_Annotations n (MachineAnnotationKey env) \<noteq> None"
    using owner by fastforce
  have link: "\<exists>nodeRef n. machine_NodeRef mc = Some nodeRef
                 \<and> nodeNamed nodes (ref_Name nodeRef) = Some n
                 \<and> node_Annotations n (MachineAnnotationKey env)
                     = Some (MachineApiNamespace env @ ''/'' @ machine_Name mc)"
    if mc: "mc \<in> set machines" for mc
  proof -
    from backed mc obtain n where n: "n \<in> set nodes" and ref: "references mc n"
      and a: "node_Annotations n (MachineAnnotationKey env)
                = Some (MachineApiNamespace env @ ''/'' @ machine_Name mc)"
      by blast
    from ref obtain nodeRef where nr: "machine_NodeRef mc = Some nodeRef"
      and nm: "ref_Name nodeRef = node_Name n"
      by (auto simp: references_def split: option.splits)
    from nodeNamed_distinct [OF names n] nm have "nodeNamed nodes (ref_Name nodeRef) = Some n"
      by simp
    with nr a show ?thesis by blast
  qed
  from len ann link show ?thesis
    using condition_after_reads [OF r, of env] by blast
qed

text \<open>
  C8. On a converged snapshot (as many machines as nodes, node names pairwise different,
  every node annotated with the key of a machine that references it, every machine
  referencing a node annotated with its key), \<^verbatim>\<open>isOneMachinePerNode\<close> returns true at its
  first attempt, and so does a second invocation that sees the same snapshot. Each
  invocation makes the two list calls and nothing else: no call of either changes a
  machine, a node or a machine set.
\<close>

theorem isOneMachinePerNode_idempotent:
  assumes "length machines = length nodes"
    and "distinct (map node_Name nodes)"
    and "\<forall>n \<in> set nodes. \<exists>mc \<in> set machines. references mc n
           \<and> node_Annotations n (MachineAnnotationKey env)
               = Some (MachineApiNamespace env @ ''/'' @ machine_Name mc)"
    and "\<forall>mc \<in> set machines. \<exists>n \<in> set nodes. references mc n
           \<and> node_Annotations n (MachineAnnotationKey env)
               = Some (MachineApiNamespace env @ ''/'' @ machine_Name mc)"
    and "first 0 = \<lparr>machineList_read = Inr machines, nodeList_read = Inr nodes\<rparr>"
    and "second 0 = first 0"
  shows "fst (isOneMachinePerNode env first) \<and> fst (isOneMachinePerNode env second)
       \<and> snd (isOneMachinePerNode env first)
           = [ListMachines (MachineApiNamespace env), ListNodes (MachineApiNamespace env)]
       \<and> snd (isOneMachinePerNode env second) = snd (isOneMachinePerNode env first)
       \<and> (\<forall>c \<in> set (snd (isOneMachinePerNode env first) @ snd (isOneMachinePerNode env second)).
             \<not> mutating c)"
proof -
  have r: "machineList_read (first 0) = Inr machines" "nodeList_read (first 0) = Inr nodes"
    using assms(5) by simp_all
  have sat: "fst (fst (isOneMachinePerNode_condition env (first 0)))"
    by (rule converged_satisfies [OF assms(1-4) r])
  then have sat2: "fst (fst (isOneMachinePerNode_condition env (second 0)))"
    using assms(6) by simp
  from isOneMachinePerNode_first_attempt [of env first, OF sat]
    isOneMachinePerNode_first_attempt [of env second, OF sat2]
  show ?thesis by simp
qed

theorem isOneMachinePerNode_idempotent_witness:
  "length fixture_machines = length fixture_nodes
   \<and> distinct (map node_Name fixture_nodes)
   \<and> isOneMachinePerNode fixture_env (\<lambda>k. fixture_reads)
       = (True, [ListMachines ''openshift-machine-api'', ListNodes ''openshift-machine-api''])"
proof -
  have h1: "length fixture_machines = length fixture_nodes"
    by (simp add: fixture_defs)
  have h2: "distinct (map node_Name fixture_nodes)"
    by (simp add: fixture_defs)
  have h3: "\<forall>n \<in> set fixture_nodes. \<exists>mc \<in> set fixture_machines. references mc n
           \<and> node_Annotations n (MachineAnnotationKey fixture_env)
               = Some (MachineApiNamespace fixture_env @ ''/'' @ machine_Name mc)"
    by (simp add: fixture_defs references_def)
  have h4: "\<forall>mc \<in> set fixture_machines. \<exists>n \<in> set fixture_nodes. references mc n
           \<and> node_Annotations n (MachineAnnotationKey fixture_env)
               = Some (MachineApiNamespace fixture_env @ ''/'' @ machine_Name mc)"
    by (simp add: fixture_defs references_def)
  have h5: "(\<lambda>k::nat. fixture_reads) 0
              = \<lparr>machineList_read = Inr fixture_machines, nodeList_read = Inr fixture_nodes\<rparr>"
    by (simp add: fixture_reads_def)
  have h6: "(\<lambda>k::nat. fixture_reads) 0 = (\<lambda>k::nat. fixture_reads) 0" by simp
  from isOneMachinePerNode_idempotent
         [of fixture_machines fixture_nodes fixture_env "\<lambda>k. fixture_reads" "\<lambda>k. fixture_reads",
          OF h1 h2 h3 h4 h5 h6]
  have "fst (isOneMachinePerNode fixture_env (\<lambda>k. fixture_reads))"
    and "snd (isOneMachinePerNode fixture_env (\<lambda>k. fixture_reads))
           = [ListMachines (MachineApiNamespace fixture_env), ListNodes (MachineApiNamespace fixture_env)]"
    by simp_all
  then have "isOneMachinePerNode fixture_env (\<lambda>k. fixture_reads)
       = (True, [ListMachines ''openshift-machine-api'', ListNodes ''openshift-machine-api''])"
    by (simp add: prod_eq_iff fixture_env_def)
  with h1 h2 show ?thesis by blast
qed

subsection \<open>Deleting a machine\<close>

text \<open>
  C7. \<^verbatim>\<open>deleteMachine\<close> makes one delete call and returns what that call returned,
  whatever the later attempts of its one-minute poll would have seen: an error of the
  delete ends the poll at once and is returned as it is, with no further attempt, and the
  result is nil exactly when the delete succeeded.
\<close>

theorem deleteMachine_first_call_decides:
  "deleteMachine world machine = (world 0, [DeleteMachine machine])
   \<and> (fst (deleteMachine world machine) = None \<longleftrightarrow> world 0 = None)
   \<and> length (snd (deleteMachine world machine)) = 1"
proof -
  have "deleteMachine world machine = (world 0, [DeleteMachine machine])"
  proof (cases "world 0")
    case None
    then have c: "deleteMachine_condition machine (world 0) = ((True, None), [DeleteMachine machine])"
      by (simp add: deleteMachine_condition_def)
    show ?thesis
      unfolding deleteMachine_def PollImmediate_first
      by (simp only: poll_satisfied_first [of "deleteMachine_condition machine" "world 0", OF c]) (simp add: None)
  next
    case (Some err)
    then have c: "deleteMachine_condition machine (world 0) = ((False, Some err), [DeleteMachine machine])"
      by (simp add: deleteMachine_condition_def)
    show ?thesis
      unfolding deleteMachine_def PollImmediate_first
      by (simp only: poll_error_first [of "deleteMachine_condition machine" "world 0", OF c]) (simp add: Some)
  qed
  then show ?thesis by simp
qed

theorem deleteMachine_first_call_decides_witness:
  "deleteMachine (\<lambda>k. if k = 0 then Some (ApiError ''forbidden'') else None)
       (fixture_machine ''m1'' ''n1'')
     = (Some (ApiError ''forbidden''), [DeleteMachine (fixture_machine ''m1'' ''n1'')])
   \<and> deleteMachine (\<lambda>k. None) (fixture_machine ''m1'' ''n1'')
     = (None, [DeleteMachine (fixture_machine ''m1'' ''n1'')])"
  using deleteMachine_first_call_decides
          [of "\<lambda>k. if k = 0 then Some (ApiError ''forbidden'') else None"
              "fixture_machine ''m1'' ''n1''"]
        deleteMachine_first_call_decides [of "\<lambda>k. None" "fixture_machine ''m1'' ''n1''"]
  by simp

subsection \<open>The machine of a node\<close>

text \<open>
  C10. Beside the missing and the malformed annotation, \<^verbatim>\<open>getMachineFromNode\<close> fails in
  a third way: when the annotation splits into a namespace and a name but the namespace
  is not the configured machine-API namespace, it returns its own error and does not look
  the machine up. When it returns a machine, the annotation was present, its namespace
  was the configured one, and the machine is the one looked up under the annotation's
  name.
\<close>

theorem getMachineFromNode_foreign_namespace:
  "(node_Annotations node (MachineAnnotationKey env) = Some key
      \<and> split key = Inr (namespace, machineName)
      \<and> namespace \<noteq> MachineApiNamespace env
    \<longrightarrow> getMachineFromNode env split getMachine node
          = (Inl (Errorf ''Machine %q is forbidden to live outside of default %v namespace''
                    [key, MachineApiNamespace env] None), []))
   \<and> (getMachineFromNode env split getMachine node = (Inr machine, calls)
    \<longrightarrow> (\<exists>key machineName.
            node_Annotations node (MachineAnnotationKey env) = Some key
            \<and> split key = Inr (MachineApiNamespace env, machineName)
            \<and> getMachine machineName = Inr machine
            \<and> calls = [GetMachine machineName]))"
  by (auto simp: getMachineFromNode_def split: option.splits sum.splits prod.splits if_splits)

theorem getMachineFromNode_foreign_namespace_witness:
  "node_Annotations (fixture_node ''n1'' ''kube-system/m1'') (MachineAnnotationKey fixture_env)
     = Some ''kube-system/m1''
   \<and> SplitMetaNamespaceKey ''kube-system/m1'' = Inr (''kube-system'', ''m1'')
   \<and> ''kube-system'' \<noteq> MachineApiNamespace fixture_env
   \<and> getMachineFromNode fixture_env SplitMetaNamespaceKey
        (\<lambda>name. Inr (fixture_machine name ''n1'')) (fixture_node ''n1'' ''kube-system/m1'')
       = (Inl (Errorf ''Machine %q is forbidden to live outside of default %v namespace''
                 [''kube-system/m1'', ''openshift-machine-api''] None), [])
   \<and> getMachineFromNode fixture_env SplitMetaNamespaceKey
        (\<lambda>name. Inr (fixture_machine name ''n1''))
        (fixture_node ''n1'' ''openshift-machine-api/m1'')
       = (Inr (fixture_machine ''m1'' ''n1''), [GetMachine ''m1''])"
proof -
  have a: "node_Annotations (fixture_node ''n1'' ''kube-system/m1'') (MachineAnnotationKey fixture_env)
     = Some ''kube-system/m1''"
    by (simp add: fixture_node_def fixture_env_def)
  have b: "SplitMetaNamespaceKey ''kube-system/m1'' = Inr (''kube-system'', ''m1'')"
    by (simp add: SplitMetaNamespaceKey_def)
  have c: "''kube-system'' \<noteq> MachineApiNamespace fixture_env"
    by (simp add: fixture_env_def)
  have d: "getMachineFromNode fixture_env SplitMetaNamespaceKey
        (\<lambda>name. Inr (fixture_machine name ''n1'')) (fixture_node ''n1'' ''kube-system/m1'')
       = (Inl (Errorf ''Machine %q is forbidden to live outside of default %v namespace''
                 [''kube-system/m1'', ''openshift-machine-api''] None), [])"
    using getMachineFromNode_foreign_namespace
            [of "fixture_node ''n1'' ''kube-system/m1''" fixture_env "''kube-system/m1''"
                SplitMetaNamespaceKey "''kube-system''" "''m1''"
                "\<lambda>name. Inr (fixture_machine name ''n1'')"] a b c
    by (simp add: fixture_env_def)
  have e: "getMachineFromNode fixture_env SplitMetaNamespaceKey
        (\<lambda>name. Inr (fixture_machine name ''n1''))
        (fixture_node ''n1'' ''openshift-machine-api/m1'')
       = (Inr (fixture_machine ''m1'' ''n1''), [GetMachine ''m1''])"
    by (simp add: getMachineFromNode_def fixture_node_def fixture_env_def SplitMetaNamespaceKey_def)
  from a b c d e show ?thesis by blast
qed

subsection \<open>Scaling a machine set\<close>

text \<open>
  C6. When \<^verbatim>\<open>scaleMachineSet\<close> succeeds, it has made exactly two calls on the scale
  sub-resource of the machine set: one get and then one update. The object it writes is
  the object it read with the replica count of the spec set to \<^verbatim>\<open>int32(replicas)\<close>; the
  object's metadata and status are written back as they were read.
\<close>

theorem scaleMachineSet_one_get_one_update:
  assumes "scaleMachineSet env setup name replicas = (None, calls)"
  shows "\<exists>scaleClient scale written.
           getScaleClient setup = Inr scaleClient
           \<and> scales_Get scaleClient (MachineApiNamespace env)
                 \<lparr>gr_Group = machineAPIGroup, gr_Resource = ''MachineSet''\<rparr> name = Inr scale
           \<and> calls = [ScalesGet (MachineApiNamespace env)
                         \<lparr>gr_Group = machineAPIGroup, gr_Resource = ''MachineSet''\<rparr> name,
                       ScalesUpdate (MachineApiNamespace env)
                         \<lparr>gr_Group = machineAPIGroup, gr_Resource = ''MachineSet''\<rparr> written]
           \<and> written = scale\<lparr>scale_Spec := (scale_Spec scale)\<lparr>spec_Replicas := ucast replicas\<rparr>\<rparr>
           \<and> scale_ObjectMeta written = scale_ObjectMeta scale
           \<and> scale_Status written = scale_Status scale
           \<and> spec_Replicas (scale_Spec written) = ucast replicas"
  using assms
  by (auto simp: scaleMachineSet_def Let_def split: sum.splits)

theorem scaleMachineSet_one_get_one_update_witness:
  "scaleMachineSet fixture_env
     \<lparr>LoadConfig = None, NewDiscoveryRESTMapper = None,
      NewForConfig = Inr \<lparr>scales_Get = (\<lambda>ns gr name. Inr
          \<lparr>scale_ObjectMeta = \<lparr>meta_Name = name, meta_Namespace = ns, meta_ResourceVersion = ''7''\<rparr>,
           scale_Spec = \<lparr>spec_Replicas = 2\<rparr>,
           scale_Status = \<lparr>status_Replicas = 2, status_Selector = ''set=workers''\<rparr>\<rparr>),
        scales_Update = (\<lambda>ns gr s. Inr s)\<rparr>\<rparr>
     ''workers'' 4
   = (None,
      [ScalesGet ''openshift-machine-api''
         \<lparr>gr_Group = ''machine.openshift.io'', gr_Resource = ''MachineSet''\<rparr> ''workers'',
       ScalesUpdate ''openshift-machine-api''
         \<lparr>gr_Group = ''machine.openshift.io'', gr_Resource = ''MachineSet''\<rparr>
         \<lparr>scale_ObjectMeta = \<lparr>meta_Name = ''workers'', meta_Namespace = ''openshift-machine-api'',
                               meta_ResourceVersion = ''7''\<rparr>,
          scale_Spec = \<lparr>spec_Replicas = 4\<rparr>,
          scale_Status = \<lparr>status_Replicas = 2, status_Selector = ''set=workers''\<rparr>\<rparr>])"
proof -
  let ?builders = "\<lparr>LoadConfig = None, NewDiscoveryRESTMapper = None,
      NewForConfig = Inr \<lparr>scales_Get = (\<lambda>ns gr name. Inr
          \<lparr>scale_ObjectMeta = \<lparr>meta_Name = name, meta_Namespace = ns, meta_ResourceVersion = ''7''\<rparr>,
           scale_Spec = \<lparr>spec_Replicas = 2\<rparr>,
           scale_Status = \<lparr>status_Replicas = 2, status_Selector = ''set=workers''\<rparr>\<rparr>),
        scales_Update = (\<lambda>ns gr s. Inr s)\<rparr>\<rparr>"
  obtain calls where ok: "scaleMachineSet fixture_env ?builders ''workers'' 4 = (None, calls)"
    by (simp add: scaleMachineSet_def getScaleClient_def Let_def)
  from scaleMachineSet_one_get_one_update [OF ok] ok show ?thesis
    by (simp add: getScaleClient_def fixture_env_def machineAPIGroup_def)
qed

subsection \<open>The size poll\<close>

lemma poll_retry_prefix:
  "\<forall>x \<in> set xs. fst (condition x) = (False, None) \<Longrightarrow>
   poll condition (xs @ ys) =
     (fst (poll condition ys), concat (map (\<lambda>x. snd (condition x)) xs) @ snd (poll condition ys))"
  by (induction xs) (auto split: prod.splits)

lemma concat_map_constant:
  "\<forall>x \<in> set xs. f x = a \<Longrightarrow> concat (map f xs) = concat (replicate (length xs) a)"
  by (induction xs) auto

lemma attempts_split:
  "k \<le> n \<Longrightarrow> map world [0..<Suc n] = map world [0..<k] @ world k # map world [Suc k..<Suc n]"
proof -
  assume "k \<le> n"
  then have "[0..<Suc n] = [0..<k] @ [k..<Suc n]"
    using upt_add_eq_append [of 0 k "Suc n - k"] by simp
  also have "[k..<Suc n] = k # [Suc k..<Suc n]"
    using \<open>k \<le> n\<close> by (simp add: upt_conv_Cons del: upt_Suc)
  finally show ?thesis by simp
qed

lemma clusterSize_condition_not_reached:
  "sizeNotReached targetSize r \<Longrightarrow>
   clusterSize_condition targetSize r = ((False, None), [GetMachineSets, GetNodes, GetNodes])"
  by (auto simp: sizeNotReached_def clusterSize_condition_def machineSetsSnapShotLogs_def
        nodesSnapShotLogs_def getClusterSize_def split: sum.splits)

lemma clusterSize_condition_reached:
  "sizeReached targetSize r \<Longrightarrow>
   clusterSize_condition targetSize r = ((True, None), [GetMachineSets, GetNodes, GetNodes])"
  by (auto simp: sizeReached_def clusterSize_condition_def machineSetsSnapShotLogs_def
        nodesSnapShotLogs_def getClusterSize_def split: sum.splits)

lemma clusterSize_condition_read_failed:
  "readFailed r \<Longrightarrow>
   \<exists>cause calls. clusterSize_condition targetSize r = ((False, Some cause), calls)
     \<and> cause \<noteq> ErrWaitTimeout
     \<and> calls \<in> {[GetMachineSets], [GetMachineSets, GetNodes], [GetMachineSets, GetNodes, GetNodes]}"
  by (auto simp: readFailed_def clusterSize_condition_def machineSetsSnapShotLogs_def
        nodesSnapShotLogs_def getClusterSize_def isl_def split: sum.splits)

lemma size_poll_aborts:
  assumes k: "k \<le> timeout div 5"
    and before: "\<forall>j<k. sizeNotReached targetSize (world j)"
    and failed: "readFailed (world k)"
  shows "\<exists>cause calls.
           clusterSize_condition targetSize (world k) = ((False, Some cause), calls)
           \<and> cause \<noteq> ErrWaitTimeout
           \<and> calls \<in> {[GetMachineSets], [GetMachineSets, GetNodes], [GetMachineSets, GetNodes, GetNodes]}
           \<and> PollImmediate 5 timeout (clusterSize_condition targetSize) world
               = (Some cause, concat (replicate k [GetMachineSets, GetNodes, GetNodes]) @ calls)"
proof -
  let ?c = "clusterSize_condition targetSize"
  from clusterSize_condition_read_failed [OF failed, of targetSize]
  obtain cause calls where c: "?c (world k) = ((False, Some cause), calls)"
    and ne: "cause \<noteq> ErrWaitTimeout"
    and cs: "calls \<in> {[GetMachineSets], [GetMachineSets, GetNodes], [GetMachineSets, GetNodes, GetNodes]}"
    by blast
  have pre: "\<forall>x \<in> set (map world [0..<k]). ?c x = ((False, None), [GetMachineSets, GetNodes, GetNodes])"
    using before clusterSize_condition_not_reached by auto
  then have pre1: "\<forall>x \<in> set (map world [0..<k]). fst (?c x) = (False, None)"
    and pre2: "\<forall>x \<in> set (map world [0..<k]). snd (?c x) = [GetMachineSets, GetNodes, GetNodes]"
    by simp_all
  have "PollImmediate 5 timeout ?c world
          = poll ?c (map world [0..<k] @ world k # map world [Suc k..<Suc (timeout div 5)])"
    by (simp only: PollImmediate_def attempts_split [OF k])
  also have "\<dots> = (Some cause, concat (map (\<lambda>x. snd (?c x)) (map world [0..<k])) @ calls)"
    by (simp only: poll_retry_prefix [OF pre1] poll_error_first [of ?c "world k", OF c] fst_conv snd_conv)
  also have "concat (map (\<lambda>x. snd (?c x)) (map world [0..<k]))
               = concat (replicate k [GetMachineSets, GetNodes, GetNodes])"
    using concat_map_constant [OF pre2] by simp
  finally show ?thesis using c ne cs by blast
qed

lemma size_poll_times_out:
  assumes "\<forall>j \<le> timeout div 5. sizeNotReached targetSize (world j)"
  shows "PollImmediate 5 timeout (clusterSize_condition targetSize) world
           = (Some ErrWaitTimeout,
              concat (replicate (Suc (timeout div 5)) [GetMachineSets, GetNodes, GetNodes]))"
proof -
  let ?c = "clusterSize_condition targetSize"
  let ?xs = "map world [0..<Suc (timeout div 5)]"
  have pre: "\<forall>x \<in> set ?xs. ?c x = ((False, None), [GetMachineSets, GetNodes, GetNodes])"
    using assms clusterSize_condition_not_reached by (auto simp: less_Suc_eq_le simp del: upt_Suc)
  then have pre1: "\<forall>x \<in> set ?xs. fst (?c x) = (False, None)"
    and pre2: "\<forall>x \<in> set ?xs. snd (?c x) = [GetMachineSets, GetNodes, GetNodes]"
    by simp_all
  have "poll ?c ?xs = (Some ErrWaitTimeout, concat (map (\<lambda>x. snd (?c x)) ?xs))"
    using poll_retry_prefix [OF pre1, of "[]"]
    by (simp only: append_Nil2 poll.simps(1) fst_conv snd_conv)
  moreover have "concat (map (\<lambda>x. snd (?c x)) ?xs)
               = concat (replicate (Suc (timeout div 5)) [GetMachineSets, GetNodes, GetNodes])"
    using concat_map_constant [OF pre2] by (simp del: upt_Suc)
  ultimately show ?thesis by (simp add: PollImmediate_def del: upt_Suc)
qed

lemma size_poll_succeeds:
  assumes k: "k \<le> timeout div 5"
    and before: "\<forall>j<k. sizeNotReached targetSize (world j)"
    and reached: "sizeReached targetSize (world k)"
  shows "PollImmediate 5 timeout (clusterSize_condition targetSize) world
           = (None, concat (replicate (Suc k) [GetMachineSets, GetNodes, GetNodes]))"
proof -
  let ?c = "clusterSize_condition targetSize"
  note c = clusterSize_condition_reached [OF reached]
  have pre: "\<forall>x \<in> set (map world [0..<k]). ?c x = ((False, None), [GetMachineSets, GetNodes, GetNodes])"
    using before clusterSize_condition_not_reached by auto
  then have pre1: "\<forall>x \<in> set (map world [0..<k]). fst (?c x) = (False, None)"
    and pre2: "\<forall>x \<in> set (map world [0..<k]). snd (?c x) = [GetMachineSets, GetNodes, GetNodes]"
    by simp_all
  have "PollImmediate 5 timeout ?c world
          = poll ?c (map world [0..<k] @ world k # map world [Suc k..<Suc (timeout div 5)])"
    by (simp only: PollImmediate_def attempts_split [OF k])
  also have "\<dots> = (None, concat (map (\<lambda>x. snd (?c x)) (map world [0..<k]))
                        @ [GetMachineSets, GetNodes, GetNodes])"
    by (simp only: poll_retry_prefix [OF pre1] poll_satisfied_first [of ?c "world k", OF c]
          fst_conv snd_conv)
  also have "concat (map (\<lambda>x. snd (?c x)) (map world [0..<k]))
               = concat (replicate k [GetMachineSets, GetNodes, GetNodes])"
    using concat_map_constant [OF pre2] by simp
  finally show ?thesis by (simp add: replicate_append_same [symmetric])
qed

text \<open>
  C4 (as the code has it). In the size poll of \<^verbatim>\<open>waitForClusterSizeToBeHealthy\<close> a failed
  read is not retried. When the attempts before attempt \<open>k\<close> read the cluster and found
  another size, and a read of attempt \<open>k\<close> (the machine sets, the nodes of the snapshot,
  or the nodes counted) fails, the poll ends at that attempt: the call returns
  \<^verbatim>\<open>Did not reach expected number of nodes\<close> around the error of that read, which is not the
  timeout error, and no call is made after the failed read. Only an attempt whose reads
  succeed with another size is retried; when that is so at every attempt the long timeout
  allows, the call returns the same message around the timeout error, after three reads
  at each of the attempts.
\<close>

theorem size_poll_read_failure_aborts:
  "(k \<le> WaitLong env div 5
      \<and> (\<forall>j<k. sizeNotReached targetSize (size_world w j))
      \<and> readFailed (size_world w k)
    \<longrightarrow> (\<exists>cause calls.
           clusterSize_condition targetSize (size_world w k) = ((False, Some cause), calls)
           \<and> cause \<noteq> ErrWaitTimeout
           \<and> length calls \<le> 3
           \<and> waitForClusterSizeToBeHealthy env w targetSize
               = (Some (Errorf ''Did not reach expected number of nodes: %v'' [] (Some cause)),
                  concat (replicate k [GetMachineSets, GetNodes, GetNodes]) @ calls)))
   \<and> ((\<forall>j \<le> WaitLong env div 5. sizeNotReached targetSize (size_world w j))
    \<longrightarrow> waitForClusterSizeToBeHealthy env w targetSize
          = (Some (Errorf ''Did not reach expected number of nodes: %v'' [] (Some ErrWaitTimeout)),
             concat (replicate (Suc (WaitLong env div 5)) [GetMachineSets, GetNodes, GetNodes])))"
proof (intro conjI impI)
  assume h: "k \<le> WaitLong env div 5
      \<and> (\<forall>j<k. sizeNotReached targetSize (size_world w j))
      \<and> readFailed (size_world w k)"
  then have k: "k \<le> WaitLong env div 5"
    and before: "\<forall>j<k. sizeNotReached targetSize (size_world w j)"
    and failed: "readFailed (size_world w k)"
    by simp_all
  from size_poll_aborts [OF k before failed]
  obtain cause calls where
    c: "clusterSize_condition targetSize (size_world w k) = ((False, Some cause), calls)"
    and ne: "cause \<noteq> ErrWaitTimeout"
    and cs: "calls \<in> {[GetMachineSets], [GetMachineSets, GetNodes], [GetMachineSets, GetNodes, GetNodes]}"
    and p: "PollImmediate 5 (WaitLong env) (clusterSize_condition targetSize) (size_world w)
               = (Some cause, concat (replicate k [GetMachineSets, GetNodes, GetNodes]) @ calls)"
    by blast
  from cs have "length calls \<le> 3" by auto
  moreover from p have "waitForClusterSizeToBeHealthy env w targetSize
               = (Some (Errorf ''Did not reach expected number of nodes: %v'' [] (Some cause)),
                  concat (replicate k [GetMachineSets, GetNodes, GetNodes]) @ calls)"
    by (simp add: waitForClusterSizeToBeHealthy_def)
  ultimately show "\<exists>cause calls.
           clusterSize_condition targetSize (size_world w k) = ((False, Some cause), calls)
           \<and> cause \<noteq> ErrWaitTimeout
           \<and> length calls \<le> 3
           \<and> waitForClusterSizeToBeHealthy env w targetSize
               = (Some (Errorf ''Did not reach expected number of nodes: %v'' [] (Some cause)),
                  concat (replicate k [GetMachineSets, GetNodes, GetNodes]) @ calls)"
    using c ne by blast
next
  assume "\<forall>j \<le> WaitLong env div 5. sizeNotReached targetSize (size_world w j)"
  from size_poll_times_out [OF this]
  show "waitForClusterSizeToBeHealthy env w targetSize
          = (Some (Errorf ''Did not reach expected number of nodes: %v'' [] (Some ErrWaitTimeout)),
             concat (replicate (Suc (WaitLong env div 5)) [GetMachineSets, GetNodes, GetNodes]))"
    by (simp add: waitForClusterSizeToBeHealthy_def)
qed

theorem size_poll_read_failure_aborts_witness:
  "sizeNotReached 3 fixture_size_reads
   \<and> readFailed (fixture_size_reads\<lparr>size_nodes_read := Inl (ApiError ''unavailable'')\<rparr>)
   \<and> waitForClusterSizeToBeHealthy fixture_env
        (fixture_world\<lparr>size_world := (\<lambda>k. if k = 1
             then fixture_size_reads\<lparr>size_nodes_read := Inl (ApiError ''unavailable'')\<rparr>
             else fixture_size_reads)\<rparr>) 3
       = (Some (Errorf ''Did not reach expected number of nodes: %v'' []
                  (Some (Errorf ''error getting nodes: %v'' [] (Some (ApiError ''unavailable''))))),
          [GetMachineSets, GetNodes, GetNodes, GetMachineSets, GetNodes, GetNodes])
   \<and> waitForClusterSizeToBeHealthy fixture_env fixture_world 3
       = (Some (Errorf ''Did not reach expected number of nodes: %v'' [] (Some ErrWaitTimeout)),
          concat (replicate 5 [GetMachineSets, GetNodes, GetNodes]))"
proof -
  let ?bad = "fixture_size_reads\<lparr>size_nodes_read := Inl (ApiError ''unavailable'')\<rparr>"
  let ?w = "fixture_world\<lparr>size_world := (\<lambda>k. if k = 1 then ?bad else fixture_size_reads)\<rparr>"
  have n: "sizeNotReached 3 fixture_size_reads"
    by (simp add: sizeNotReached_def fixture_size_reads_def fixture_defs)
  have f: "readFailed ?bad"
    by (simp add: readFailed_def fixture_size_reads_def)
  have d: "WaitLong fixture_env div 5 = 4" by (simp add: fixture_env_def)
  have c: "clusterSize_condition 3 ?bad
             = ((False, Some (Errorf ''error getting nodes: %v'' [] (Some (ApiError ''unavailable'')))),
                [GetMachineSets, GetNodes, GetNodes])"
    by (simp add: clusterSize_condition_def machineSetsSnapShotLogs_def nodesSnapShotLogs_def
          getClusterSize_def fixture_size_reads_def)
  have h1: "(1::nat) \<le> WaitLong fixture_env div 5
      \<and> (\<forall>j<1. sizeNotReached 3 (size_world ?w j))
      \<and> readFailed (size_world ?w 1)"
    using n f d by simp
  have A: "waitForClusterSizeToBeHealthy fixture_env ?w 3
       = (Some (Errorf ''Did not reach expected number of nodes: %v'' []
                  (Some (Errorf ''error getting nodes: %v'' [] (Some (ApiError ''unavailable''))))),
          [GetMachineSets, GetNodes, GetNodes, GetMachineSets, GetNodes, GetNodes])"
    using size_poll_read_failure_aborts [of 1 fixture_env 3 ?w] h1 c by auto
  have h2: "\<forall>j \<le> WaitLong fixture_env div 5. sizeNotReached 3 (size_world fixture_world j)"
    using n by (simp add: fixture_world_def always_def)
  have B: "waitForClusterSizeToBeHealthy fixture_env fixture_world 3
       = (Some (Errorf ''Did not reach expected number of nodes: %v'' [] (Some ErrWaitTimeout)),
          concat (replicate 5 [GetMachineSets, GetNodes, GetNodes]))"
    using size_poll_read_failure_aborts [of 0 fixture_env 3 fixture_world] h2 d by simp
  from n f A B show ?thesis by blast
qed

theorem size_poll_read_failure_counterexample:
  "waitForClusterSizeToBeHealthy fixture_env
        (fixture_world\<lparr>size_world :=
           first_then (fixture_size_reads\<lparr>machineSets_read := Inl (ApiError ''unavailable'')\<rparr>)
             fixture_size_reads\<rparr>) 2
       = (Some (Errorf ''Did not reach expected number of nodes: %v'' []
                  (Some (Errorf ''error getting machines: %v'' [] (Some (ApiError ''unavailable''))))),
          [GetMachineSets])
   \<and> waitForClusterSizeToBeHealthy fixture_env
        (fixture_world\<lparr>size_world :=
           first_then (fixture_size_reads\<lparr>snapshot_nodes_read := Inl (ApiError ''unavailable'')\<rparr>)
             fixture_size_reads\<rparr>) 2
       = (Some (Errorf ''Did not reach expected number of nodes: %v'' []
                  (Some (Errorf ''error getting nodes: %v'' [] (Some (ApiError ''unavailable''))))),
          [GetMachineSets, GetNodes])
   \<and> waitForClusterSizeToBeHealthy fixture_env
        (fixture_world\<lparr>size_world :=
           first_then (fixture_size_reads\<lparr>size_nodes_read := Inl (ApiError ''unavailable'')\<rparr>)
             fixture_size_reads\<rparr>) 2
       = (Some (Errorf ''Did not reach expected number of nodes: %v'' []
                  (Some (Errorf ''error getting nodes: %v'' [] (Some (ApiError ''unavailable''))))),
          [GetMachineSets, GetNodes, GetNodes])
   \<and> sizeReached 2 fixture_size_reads
   \<and> WaitLong fixture_env div 5 = 4"
  by (simp add: waitForClusterSizeToBeHealthy_def PollImmediate_first fixture_world_def always_def
        fixture_size_reads_def fixture_env_def clusterSize_condition_def
        machineSetsSnapShotLogs_def nodesSnapShotLogs_def getClusterSize_def sizeReached_def
        fixture_nodes_def first_then_def)

subsection \<open>The stages of waiting for a cluster size\<close>

lemma poll_calls_concat:
  "\<exists>m \<le> length xs. snd (poll condition xs) = concat (map (\<lambda>x. snd (condition x)) (take m xs))"
proof (induction xs)
  case Nil
  then show ?case by simp
next
  case (Cons x xs)
  then obtain m where m: "m \<le> length xs"
    and eq: "snd (poll condition xs) = concat (map (\<lambda>x. snd (condition x)) (take m xs))"
    by blast
  obtain ok err calls where c: "condition x = ((ok, err), calls)"
    by (metis prod.exhaust)
  show ?case
  proof (cases "err = None \<and> \<not> ok")
    case True
    with c eq have "snd (poll condition (x # xs))
        = concat (map (\<lambda>x. snd (condition x)) (take (Suc m) (x # xs)))"
      by (cases "poll condition xs") auto
    with m show ?thesis by (intro exI [of _ "Suc m"]) simp
  next
    case False
    with c have "snd (poll condition (x # xs))
        = concat (map (\<lambda>x. snd (condition x)) (take (Suc 0) (x # xs)))"
      by (auto split: option.splits)
    then show ?thesis by (intro exI [of _ "Suc 0"]) simp
  qed
qed

lemma clusterSize_condition_calls:
  "snd (clusterSize_condition targetSize r)
     \<in> {[GetMachineSets], [GetMachineSets, GetNodes], [GetMachineSets, GetNodes, GetNodes]}"
  by (auto simp: clusterSize_condition_def machineSetsSnapShotLogs_def
        nodesSnapShotLogs_def getClusterSize_def split: sum.splits)

lemma sizeStage_calls_subset:
  "set (snd (sizeStage env w targetSize)) \<subseteq> {GetMachineSets, GetNodes}"
proof -
  have "set (snd (clusterSize_condition targetSize r)) \<subseteq> {GetMachineSets, GetNodes}" for r
    using clusterSize_condition_calls [of targetSize r] by auto
  then have "\<forall>x \<in> set (map (size_world w) [0..<Suc (WaitLong env div 5)]).
          set (snd (clusterSize_condition targetSize x)) \<subseteq> {GetMachineSets, GetNodes}"
    by blast
  from poll_calls_subset [OF this] show ?thesis
    by (simp add: sizeStage_def PollImmediate_def)
qed

lemma sizeStage_calls_by_attempt:
  "\<exists>m \<le> Suc (WaitLong env div 5).
     snd (sizeStage env w targetSize)
       = concat (map (\<lambda>k. snd (clusterSize_condition targetSize (size_world w k))) [0..<m])"
proof -
  let ?n = "Suc (WaitLong env div 5)"
  from poll_calls_concat [of "map (size_world w) [0..<?n]" "clusterSize_condition targetSize"]
  obtain m where m: "m \<le> ?n"
    and eq: "snd (poll (clusterSize_condition targetSize) (map (size_world w) [0..<?n]))
              = concat (map (\<lambda>x. snd (clusterSize_condition targetSize x))
                  (take m (map (size_world w) [0..<?n])))"
    by auto
  from m have "take m [0..<?n] = [0..<m]"
    by (simp only: take_upt add_0)
  then have "take m (map (size_world w) [0..<?n]) = map (size_world w) [0..<m]"
    by (simp only: take_map)
  with eq m show ?thesis
    by (intro exI [of _ m]) (simp add: sizeStage_def PollImmediate_def comp_def del: upt_Suc)
qed

lemma poll_error_is_timeout:
  assumes "\<forall>x \<in> set xs. snd (fst (condition x)) = None"
    and "fst (poll condition xs) \<noteq> None"
  shows "fst (poll condition xs) = Some ErrWaitTimeout"
  using poll_without_error [OF assms(1)] assms(2) by (auto split: if_splits)

lemma schedulable_error_is_timeout:
  assumes "fst (waitUntilAllNodesAreSchedulable world) \<noteq> None"
  shows "fst (waitUntilAllNodesAreSchedulable world) = Some ErrWaitTimeout"
proof -
  have a: "\<forall>x \<in> set (map world [0..<Suc (60 div 1)]).
          snd (fst (waitUntilAllNodesAreSchedulable_condition x)) = None"
    by (simp add: waitUntilAllNodesAreSchedulable_condition_def split: sum.splits)
  have b: "fst (poll waitUntilAllNodesAreSchedulable_condition (map world [0..<Suc (60 div 1)]))
             \<noteq> None"
    using assms unfolding waitUntilAllNodesAreSchedulable_def PollImmediate_def .
  from poll_error_is_timeout [OF a b] show ?thesis
    unfolding waitUntilAllNodesAreSchedulable_def PollImmediate_def .
qed

lemma schedulable_calls_subset:
  "set (snd (waitUntilAllNodesAreSchedulable world)) \<subseteq> {ListNodes ''''}"
proof -
  have "\<forall>x \<in> set (map world [0..<Suc (60 div 1)]).
          set (snd (waitUntilAllNodesAreSchedulable_condition x)) \<subseteq> {ListNodes ''''}"
    by (simp add: waitUntilAllNodesAreSchedulable_condition_def split: sum.splits)
  from poll_calls_subset [OF this] show ?thesis
    by (simp only: waitUntilAllNodesAreSchedulable_def PollImmediate_def)
qed

lemma stage_size_failed:
  "fst (sizeStage env w targetSize) = Some e \<Longrightarrow>
   waitForClusterSizeToBeHealthy env w targetSize
     = (Some (Errorf ''Did not reach expected number of nodes: %v'' [] (Some e)),
        snd (sizeStage env w targetSize))"
  by (auto simp: waitForClusterSizeToBeHealthy_def sizeStage_def
        split: prod.splits option.splits bool.splits)

lemma stage_ready_failed:
  "fst (sizeStage env w targetSize) = None \<Longrightarrow> nodesReady_result w = Some e \<Longrightarrow>
   waitForClusterSizeToBeHealthy env w targetSize
     = (Some e, snd (sizeStage env w targetSize) @ [WaitUntilAllNodesAreReady])"
  by (auto simp: waitForClusterSizeToBeHealthy_def sizeStage_def
        split: prod.splits option.splits bool.splits)

lemma stage_schedulable_failed:
  "fst (sizeStage env w targetSize) = None \<Longrightarrow> nodesReady_result w = None \<Longrightarrow>
   fst (waitUntilAllNodesAreSchedulable (schedulable_world w)) \<noteq> None \<Longrightarrow>
   waitForClusterSizeToBeHealthy env w targetSize
     = (Some ErrWaitTimeout,
        snd (sizeStage env w targetSize) @ [WaitUntilAllNodesAreReady]
          @ snd (waitUntilAllNodesAreSchedulable (schedulable_world w)))"
  using schedulable_error_is_timeout [of "schedulable_world w"]
  by (auto simp: waitForClusterSizeToBeHealthy_def sizeStage_def
        split: prod.splits option.splits bool.splits)

lemma stage_check_failed:
  "fst (sizeStage env w targetSize) = None \<Longrightarrow> nodesReady_result w = None \<Longrightarrow>
   fst (waitUntilAllNodesAreSchedulable (schedulable_world w)) = None \<Longrightarrow>
   \<not> fst (isOneMachinePerNode env (machinePerNode_world w)) \<Longrightarrow>
   waitForClusterSizeToBeHealthy env w targetSize
     = (Some (Errorf ''One machine per node condition violated'' [] None),
        snd (sizeStage env w targetSize) @ [WaitUntilAllNodesAreReady]
          @ snd (waitUntilAllNodesAreSchedulable (schedulable_world w))
          @ snd (isOneMachinePerNode env (machinePerNode_world w)))"
  by (auto simp: waitForClusterSizeToBeHealthy_def sizeStage_def
        split: prod.splits option.splits bool.splits)

lemma stage_all_passed:
  "fst (sizeStage env w targetSize) = None \<Longrightarrow> nodesReady_result w = None \<Longrightarrow>
   fst (waitUntilAllNodesAreSchedulable (schedulable_world w)) = None \<Longrightarrow>
   fst (isOneMachinePerNode env (machinePerNode_world w)) \<Longrightarrow>
   waitForClusterSizeToBeHealthy env w targetSize
     = (None,
        snd (sizeStage env w targetSize) @ [WaitUntilAllNodesAreReady]
          @ snd (waitUntilAllNodesAreSchedulable (schedulable_world w))
          @ snd (isOneMachinePerNode env (machinePerNode_world w)))"
  by (auto simp: waitForClusterSizeToBeHealthy_def sizeStage_def
        split: prod.splits option.splits bool.splits)

text \<open>
  C3 (as the code has it). \<^verbatim>\<open>waitForClusterSizeToBeHealthy\<close> runs four stages in order,
  each entered only when the one before it succeeded. The first is the size poll: every
  attempt of it reads the machine sets and the nodes for the two snapshots and then the
  nodes for the count, so the snapshots are taken again at every attempt and a failed
  snapshot read fails the poll. Then come the wait for ready nodes, the wait for
  schedulable nodes and the machine-per-node check. The call returns nil exactly when all
  four succeed. A failed size poll returns \<^verbatim>\<open>Did not reach expected number of nodes\<close>
  around its error and makes no later call; a failed wait for ready nodes returns that
  wait's error as it is; a failed wait for schedulable nodes returns the poller's timeout
  error as it is; a failed check returns \<^verbatim>\<open>One machine per node condition violated\<close>.
\<close>

theorem waitForClusterSizeToBeHealthy_stages:
  "(fst (sizeStage env w targetSize) = Some e \<longrightarrow>
      waitForClusterSizeToBeHealthy env w targetSize
        = (Some (Errorf ''Did not reach expected number of nodes: %v'' [] (Some e)),
           snd (sizeStage env w targetSize)))
   \<and> (fst (sizeStage env w targetSize) = None \<and> nodesReady_result w = Some e \<longrightarrow>
      waitForClusterSizeToBeHealthy env w targetSize
        = (Some e, snd (sizeStage env w targetSize) @ [WaitUntilAllNodesAreReady]))
   \<and> (fst (sizeStage env w targetSize) = None \<and> nodesReady_result w = None
      \<and> fst (waitUntilAllNodesAreSchedulable (schedulable_world w)) \<noteq> None \<longrightarrow>
      waitForClusterSizeToBeHealthy env w targetSize
        = (Some ErrWaitTimeout,
           snd (sizeStage env w targetSize) @ [WaitUntilAllNodesAreReady]
             @ snd (waitUntilAllNodesAreSchedulable (schedulable_world w))))
   \<and> (fst (sizeStage env w targetSize) = None \<and> nodesReady_result w = None
      \<and> fst (waitUntilAllNodesAreSchedulable (schedulable_world w)) = None
      \<and> \<not> fst (isOneMachinePerNode env (machinePerNode_world w)) \<longrightarrow>
      waitForClusterSizeToBeHealthy env w targetSize
        = (Some (Errorf ''One machine per node condition violated'' [] None),
           snd (sizeStage env w targetSize) @ [WaitUntilAllNodesAreReady]
             @ snd (waitUntilAllNodesAreSchedulable (schedulable_world w))
             @ snd (isOneMachinePerNode env (machinePerNode_world w))))
   \<and> (fst (sizeStage env w targetSize) = None \<and> nodesReady_result w = None
      \<and> fst (waitUntilAllNodesAreSchedulable (schedulable_world w)) = None
      \<and> fst (isOneMachinePerNode env (machinePerNode_world w)) \<longrightarrow>
      waitForClusterSizeToBeHealthy env w targetSize
        = (None,
           snd (sizeStage env w targetSize) @ [WaitUntilAllNodesAreReady]
             @ snd (waitUntilAllNodesAreSchedulable (schedulable_world w))
             @ snd (isOneMachinePerNode env (machinePerNode_world w))))
   \<and> (fst (waitForClusterSizeToBeHealthy env w targetSize) = None \<longleftrightarrow>
        fst (sizeStage env w targetSize) = None \<and> nodesReady_result w = None
        \<and> fst (waitUntilAllNodesAreSchedulable (schedulable_world w)) = None
        \<and> fst (isOneMachinePerNode env (machinePerNode_world w)))
   \<and> set (snd (sizeStage env w targetSize)) \<subseteq> {GetMachineSets, GetNodes}
   \<and> (\<exists>m \<le> Suc (WaitLong env div 5).
        snd (sizeStage env w targetSize)
          = concat (map (\<lambda>k. snd (clusterSize_condition targetSize (size_world w k))) [0..<m]))
   \<and> snd (clusterSize_condition targetSize r)
        \<in> {[GetMachineSets], [GetMachineSets, GetNodes], [GetMachineSets, GetNodes, GetNodes]}
   \<and> set (snd (waitUntilAllNodesAreSchedulable (schedulable_world w))) \<subseteq> {ListNodes ''''}
   \<and> set (snd (isOneMachinePerNode env (machinePerNode_world w)))
        \<subseteq> {ListMachines (MachineApiNamespace env), ListNodes (MachineApiNamespace env)}"
proof -
  have nil_iff: "fst (waitForClusterSizeToBeHealthy env w targetSize) = None \<longleftrightarrow>
        fst (sizeStage env w targetSize) = None \<and> nodesReady_result w = None
        \<and> fst (waitUntilAllNodesAreSchedulable (schedulable_world w)) = None
        \<and> fst (isOneMachinePerNode env (machinePerNode_world w))"
    by (auto simp: waitForClusterSizeToBeHealthy_def sizeStage_def
          split: prod.splits option.splits bool.splits)
  show ?thesis
    using stage_size_failed [of env w targetSize e] stage_ready_failed [of env w targetSize e]
      stage_schedulable_failed [of env w targetSize] stage_check_failed [of env w targetSize]
      stage_all_passed [of env w targetSize] nil_iff
      sizeStage_calls_subset [of env w targetSize] sizeStage_calls_by_attempt [of env w targetSize]
      clusterSize_condition_calls [of targetSize r]
      schedulable_calls_subset [of "schedulable_world w"]
      isOneMachinePerNode_only_lists [of env "machinePerNode_world w"]
    by blast
qed

lemma fixture_sizeStage:
  "sizeStage fixture_env fixture_world 2 = (None, [GetMachineSets, GetNodes, GetNodes])"
  by (simp add: sizeStage_def PollImmediate_first fixture_world_def always_def fixture_size_reads_def
        fixture_nodes_def clusterSize_condition_def machineSetsSnapShotLogs_def
        nodesSnapShotLogs_def getClusterSize_def)

lemma fixture_schedulable:
  "waitUntilAllNodesAreSchedulable (schedulable_world fixture_world) = (None, [ListNodes ''''])"
  by (simp add: waitUntilAllNodesAreSchedulable_def PollImmediate_first fixture_world_def always_def
        fixture_nodes_def fixture_node_def waitUntilAllNodesAreSchedulable_condition_def)

lemma fixture_check:
  "isOneMachinePerNode fixture_env (machinePerNode_world fixture_world)
     = (True, [ListMachines ''openshift-machine-api'', ListNodes ''openshift-machine-api''])"
proof -
  have "fst (fst (isOneMachinePerNode_condition fixture_env (machinePerNode_world fixture_world 0)))"
    by (simp add: fixture_world_def always_def fixture_defs isOneMachinePerNode_condition_def mapIndex_def)
  from isOneMachinePerNode_first_attempt [of fixture_env "machinePerNode_world fixture_world", OF this]
  show ?thesis by (simp add: fixture_env_def)
qed

theorem waitForClusterSizeToBeHealthy_stages_witness:
  "fst (sizeStage fixture_env fixture_world 2) = None
   \<and> nodesReady_result fixture_world = None
   \<and> fst (waitUntilAllNodesAreSchedulable (schedulable_world fixture_world)) = None
   \<and> fst (isOneMachinePerNode fixture_env (machinePerNode_world fixture_world))
   \<and> waitForClusterSizeToBeHealthy fixture_env fixture_world 2
       = (None,
          [GetMachineSets, GetNodes, GetNodes, WaitUntilAllNodesAreReady, ListNodes '''',
           ListMachines ''openshift-machine-api'', ListNodes ''openshift-machine-api''])"
proof -
  have h1: "fst (sizeStage fixture_env fixture_world 2) = None"
    by (simp add: fixture_sizeStage)
  have h2: "nodesReady_result fixture_world = None"
    by (simp add: fixture_world_def always_def)
  have h3: "fst (waitUntilAllNodesAreSchedulable (schedulable_world fixture_world)) = None"
    by (simp add: fixture_schedulable)
  have h4: "fst (isOneMachinePerNode fixture_env (machinePerNode_world fixture_world))"
    by (simp add: fixture_check)
  from waitForClusterSizeToBeHealthy_stages [of fixture_env fixture_world 2] h1 h2 h3 h4
  have "waitForClusterSizeToBeHealthy fixture_env fixture_world 2
        = (None,
           snd (sizeStage fixture_env fixture_world 2) @ [WaitUntilAllNodesAreReady]
             @ snd (waitUntilAllNodesAreSchedulable (schedulable_world fixture_world))
             @ snd (isOneMachinePerNode fixture_env (machinePerNode_world fixture_world)))"
    by blast
  then have "waitForClusterSizeToBeHealthy fixture_env fixture_world 2
       = (None,
          [GetMachineSets, GetNodes, GetNodes, WaitUntilAllNodesAreReady, ListNodes '''',
           ListMachines ''openshift-machine-api'', ListNodes ''openshift-machine-api''])"
    by (simp add: fixture_sizeStage fixture_schedulable fixture_check)
  with h1 h2 h3 h4 show ?thesis by blast
qed

lemma schedulable_never:
  assumes "\<forall>k \<le> 60. \<not> fst (fst (waitUntilAllNodesAreSchedulable_condition (world k)))"
  shows "fst (waitUntilAllNodesAreSchedulable world) = Some ErrWaitTimeout"
proof -
  have a: "\<forall>x \<in> set (map world [0..<Suc (60 div 1)]).
          snd (fst (waitUntilAllNodesAreSchedulable_condition x)) = None"
    by (simp add: waitUntilAllNodesAreSchedulable_condition_def split: sum.splits)
  have "\<not> (\<exists>x \<in> set (map world [0..<Suc (60 div 1)]).
              fst (fst (waitUntilAllNodesAreSchedulable_condition x)))"
    using assms unfolding attempts_set by auto
  with poll_without_error [OF a] show ?thesis
    unfolding waitUntilAllNodesAreSchedulable_def PollImmediate_def by simp
qed

theorem waitForClusterSizeToBeHealthy_stages_counterexample:
  "fst (waitForClusterSizeToBeHealthy fixture_env
          (fixture_world\<lparr>nodesReady_result := Some ErrWaitTimeout\<rparr>) 2)
     = Some ErrWaitTimeout
   \<and> fst (waitForClusterSizeToBeHealthy fixture_env
          (fixture_world\<lparr>schedulable_world :=
             always (Inr [(fixture_node ''n1'' ''openshift-machine-api/m1'')
                            \<lparr>node_Unschedulable := True\<rparr>])\<rparr>) 2)
     = Some ErrWaitTimeout
   \<and> fst (waitForClusterSizeToBeHealthy fixture_env
          (fixture_world\<lparr>size_world :=
             always (fixture_size_reads\<lparr>snapshot_nodes_read := Inl (ApiError ''unavailable'')\<rparr>)\<rparr>) 2)
     = Some (Errorf ''Did not reach expected number of nodes: %v'' []
               (Some (Errorf ''error getting nodes: %v'' [] (Some (ApiError ''unavailable'')))))
   \<and> fst (waitForClusterSizeToBeHealthy fixture_env
          (fixture_world\<lparr>size_world :=
             always (fixture_size_reads\<lparr>size_nodes_read := Inl (ApiError ''unavailable'')\<rparr>)\<rparr>) 2)
     = Some (Errorf ''Did not reach expected number of nodes: %v'' []
               (Some (Errorf ''error getting nodes: %v'' [] (Some (ApiError ''unavailable'')))))
   \<and> snd (waitForClusterSizeToBeHealthy fixture_env
          (fixture_world\<lparr>size_world :=
             first_then (fixture_size_reads\<lparr>size_nodes_read := Inr []\<rparr>) fixture_size_reads\<rparr>) 2)
     = [GetMachineSets, GetNodes, GetNodes, GetMachineSets, GetNodes, GetNodes,
        WaitUntilAllNodesAreReady, ListNodes '''',
        ListMachines ''openshift-machine-api'', ListNodes ''openshift-machine-api'']"
proof (intro conjI)
  let ?ready = "fixture_world\<lparr>nodesReady_result := Some ErrWaitTimeout\<rparr>"
  have "fst (sizeStage fixture_env ?ready 2) = None"
    using fixture_sizeStage by (simp add: sizeStage_def)
  from stage_ready_failed [OF this, of ErrWaitTimeout]
  show "fst (waitForClusterSizeToBeHealthy fixture_env ?ready 2) = Some ErrWaitTimeout"
    by simp
next
  let ?cordoned = "fixture_world\<lparr>schedulable_world :=
             always (Inr [(fixture_node ''n1'' ''openshift-machine-api/m1'')
                            \<lparr>node_Unschedulable := True\<rparr>])\<rparr>"
  have s: "fst (sizeStage fixture_env ?cordoned 2) = None"
    using fixture_sizeStage by (simp add: sizeStage_def)
  have r: "nodesReady_result ?cordoned = None"
    by (simp add: fixture_world_def always_def)
  have "\<forall>k \<le> 60. \<not> fst (fst (waitUntilAllNodesAreSchedulable_condition
                                  (schedulable_world ?cordoned k)))"
    by (simp add: always_def waitUntilAllNodesAreSchedulable_condition_def)
  from schedulable_never [OF this]
  have "fst (waitUntilAllNodesAreSchedulable (schedulable_world ?cordoned)) \<noteq> None"
    by simp
  from stage_schedulable_failed [OF s r this]
  show "fst (waitForClusterSizeToBeHealthy fixture_env ?cordoned 2) = Some ErrWaitTimeout"
    by simp
next
  show "fst (waitForClusterSizeToBeHealthy fixture_env
          (fixture_world\<lparr>size_world :=
             always (fixture_size_reads\<lparr>snapshot_nodes_read := Inl (ApiError ''unavailable'')\<rparr>)\<rparr>) 2)
     = Some (Errorf ''Did not reach expected number of nodes: %v'' []
               (Some (Errorf ''error getting nodes: %v'' [] (Some (ApiError ''unavailable'')))))"
    by (simp add: waitForClusterSizeToBeHealthy_def PollImmediate_first always_def
          fixture_size_reads_def clusterSize_condition_def machineSetsSnapShotLogs_def
          nodesSnapShotLogs_def getClusterSize_def)
next
  show "fst (waitForClusterSizeToBeHealthy fixture_env
          (fixture_world\<lparr>size_world :=
             always (fixture_size_reads\<lparr>size_nodes_read := Inl (ApiError ''unavailable'')\<rparr>)\<rparr>) 2)
     = Some (Errorf ''Did not reach expected number of nodes: %v'' []
               (Some (Errorf ''error getting nodes: %v'' [] (Some (ApiError ''unavailable'')))))"
    by (simp add: waitForClusterSizeToBeHealthy_def PollImmediate_first always_def
          fixture_size_reads_def clusterSize_condition_def machineSetsSnapShotLogs_def
          nodesSnapShotLogs_def getClusterSize_def)
next
  let ?late = "fixture_world\<lparr>size_world :=
             first_then (fixture_size_reads\<lparr>size_nodes_read := Inr []\<rparr>) fixture_size_reads\<rparr>"
  have k: "(1::nat) \<le> WaitLong fixture_env div 5" by (simp add: fixture_env_def)
  have before: "\<forall>j<1. sizeNotReached 2 (size_world ?late j)"
    by (simp add: first_then_def sizeNotReached_def fixture_size_reads_def)
  have reached: "sizeReached 2 (size_world ?late 1)"
    by (simp add: first_then_def sizeReached_def fixture_size_reads_def fixture_nodes_def)
  from size_poll_succeeds [OF k before reached]
  have s: "sizeStage fixture_env ?late 2
             = (None, [GetMachineSets, GetNodes, GetNodes, GetMachineSets, GetNodes, GetNodes])"
    by (simp add: sizeStage_def numeral_2_eq_2)
  have r: "nodesReady_result ?late = None"
    by (simp add: fixture_world_def always_def)
  have d: "fst (waitUntilAllNodesAreSchedulable (schedulable_world ?late)) = None"
    using fixture_schedulable by simp
  have c: "fst (isOneMachinePerNode fixture_env (machinePerNode_world ?late))"
    using fixture_check by simp
  from stage_all_passed [of fixture_env ?late 2] s r d c
  have "waitForClusterSizeToBeHealthy fixture_env ?late 2
     = (None,
        snd (sizeStage fixture_env ?late 2) @ [WaitUntilAllNodesAreReady]
          @ snd (waitUntilAllNodesAreSchedulable (schedulable_world ?late))
          @ snd (isOneMachinePerNode fixture_env (machinePerNode_world ?late)))"
    by simp
  then show "snd (waitForClusterSizeToBeHealthy fixture_env ?late 2)
     = [GetMachineSets, GetNodes, GetNodes, GetMachineSets, GetNodes, GetNodes,
        WaitUntilAllNodesAreReady, ListNodes '''',
        ListMachines ''openshift-machine-api'', ListNodes ''openshift-machine-api'']"
    using s fixture_schedulable fixture_check by simp
qed

end
